theory Spec2Isabelle
  imports Complex_Main
begin

section \<open>Gesture recogniser of aegis-gesture-control\<close>

text \<open>
  A shallow embedding of \<^verbatim>\<open>src/backend/gesture_recognizer.py\<close> with the constants of
  \<^verbatim>\<open>src/backend/config.py\<close>. Python floats are read as real numbers (exact arithmetic),
  the mutable recogniser object is a record that every method takes and returns, and the
  two readings of \<^verbatim>\<open>time.time()\<close> that one call of \<^verbatim>\<open>update\<close> can make (one in
  \<^verbatim>\<open>_can_emit\<close>, one in \<^verbatim>\<open>_record_emit\<close>) are parameters of the call.
\<close>

subsection \<open>config.py\<close>

definition ZOOM_DIST_RATE_MIN :: real where
  "ZOOM_DIST_RATE_MIN = 15 / 1000"

definition SWIPE_VELOCITY_THRESHOLD :: real where
  "SWIPE_VELOCITY_THRESHOLD = 4 / 100"

definition SWIPE_MIN_FRAMES :: nat where
  "SWIPE_MIN_FRAMES = 3"

definition SMOOTHING_WINDOW :: nat where
  "SMOOTHING_WINDOW = 5"

definition GESTURE_COOLDOWN_MS :: real where
  "GESTURE_COOLDOWN_MS = 80"

definition ACTIVATION_ZONE :: "real \<times> real \<times> real \<times> real" where
  "ACTIVATION_ZONE = (2 / 10, 8 / 10, 15 / 100, 85 / 100)"

definition PITCH_TILT_RATE_MIN :: real where
  "PITCH_TILT_RATE_MIN = 3 / 100"

definition PITCH_COOLDOWN_MS :: real where
  "PITCH_COOLDOWN_MS = 50"

definition BEARING_ANGLE_RATE_MIN :: real where
  "BEARING_ANGLE_RATE_MIN = 6 / 100"

definition BEARING_COOLDOWN_MS :: real where
  "BEARING_COOLDOWN_MS = 50"

subsection \<open>Data\<close>

type_synonym point2 = "real \<times> real"

type_synonym point3 = "real \<times> real \<times> real"

text \<open>
  One entry of \<^verbatim>\<open>hand_data["hands"]\<close>. Of the landmark dictionary the recogniser reads
  \<^verbatim>\<open>wrist\<close> and \<^verbatim>\<open>middle_mcp\<close> only, and of each of them the components 0 and 1.
\<close>

record hand =
  palm_center :: point2
  wrist :: point3
  middle_mcp :: point3

record hand_data =
  detected :: bool
  hand_count :: int
  hands :: "hand list"

datatype gstate =
    STATE_IDLE
  | STATE_ZOOM
  | STATE_SWIPE_LEFT
  | STATE_SWIPE_RIGHT
  | STATE_PITCH_UP
  | STATE_PITCH_DOWN
  | STATE_BEARING_CW
  | STATE_BEARING_CCW

text \<open>The two shapes of event dictionary: with an \<^verbatim>\<open>intensity\<close> or a \<^verbatim>\<open>velocity\<close> key.\<close>

datatype event =
    IntensityEvent string real
  | VelocityEvent string real

fun gesture :: "event \<Rightarrow> string" where
  "gesture (IntensityEvent g v) = g"
| "gesture (VelocityEvent g v) = g"

fun magnitude :: "event \<Rightarrow> real" where
  "magnitude (IntensityEvent g v) = v"
| "magnitude (VelocityEvent g v) = v"

datatype error = IndexError

record recognizer =
  state :: gstate
  dist_buf :: "real list"
  palm_buf :: "point2 list"
  tilt_buf :: "real list"
  angle_buf :: "real list"
  swipe_frames_left :: nat
  swipe_frames_right :: nat
  coast_dir :: int
  coast_frames :: int
  cooldowns :: "string \<rightharpoonup> real"

text \<open>
  The clock of one call: the value \<^verbatim>\<open>time.time()\<close> returns in \<^verbatim>\<open>_can_emit\<close> and the
  value it returns in \<^verbatim>\<open>_record_emit\<close>.
\<close>

type_synonym clock = "real \<times> real"

text \<open>
  \<^verbatim>\<open>__init__\<close>. The attribute \<^verbatim>\<open>_COAST_MAX\<close> is the constant 12; no method reads it, nor
  the two coast fields, which \<^verbatim>\<open>_reset_buffers\<close> alone writes.
\<close>

definition COAST_MAX :: int where
  "COAST_MAX = 12"

definition init :: recognizer where
  "init = \<lparr> state = STATE_IDLE, dist_buf = [], palm_buf = [], tilt_buf = [], angle_buf = [],
            swipe_frames_left = 0, swipe_frames_right = 0, coast_dir = 0, coast_frames = 0,
            cooldowns = Map.empty \<rparr>"

subsection \<open>Library functions of Python\<close>

text \<open>
  \<^verbatim>\<open>math.hypot\<close> and \<^verbatim>\<open>math.atan2\<close> are the functions of real analysis (no signed zero,
  no NaN); \<^verbatim>\<open>round(x, n)\<close> rounds \<open>x * 10 ^ n\<close> to the nearest integer, a tie to the
  even one, as Python does on the decimal value of its argument.
\<close>

definition hypot :: "real \<Rightarrow> real \<Rightarrow> real" where
  "hypot x y = sqrt (x\<^sup>2 + y\<^sup>2)"

definition atan2 :: "real \<Rightarrow> real \<Rightarrow> real" where
  "atan2 y x =
     (if 0 < x then arctan (y / x)
      else if x < 0 then (if 0 \<le> y then arctan (y / x) + pi else arctan (y / x) - pi)
      else if 0 < y then pi / 2
      else if y < 0 then - (pi / 2)
      else 0)"

definition round_half_even :: "real \<Rightarrow> int" where
  "round_half_even x =
     (let f = \<lfloor>x\<rfloor>; d = x - of_int f
      in if d < 1 / 2 then f else if 1 / 2 < d then f + 1 else if even f then f else f + 1)"

definition py_round :: "real \<Rightarrow> nat \<Rightarrow> real" where
  "py_round x ndigits = of_int (round_half_even (x * 10 ^ ndigits)) / 10 ^ ndigits"

definition startswith :: "string \<Rightarrow> string \<Rightarrow> bool" where
  "startswith s p = (take (length p) s = p)"

text \<open>\<^verbatim>\<open>deque(maxlen=config.SMOOTHING_WINDOW).append\<close>: the oldest sample leaves a full buffer.\<close>

definition deque_append :: "'a list \<Rightarrow> 'a \<Rightarrow> 'a list" where
  "deque_append buf x = (let ys = buf @ [x] in drop (length ys - SMOOTHING_WINDOW) ys)"

subsection \<open>gesture_recognizer.py\<close>

definition dist2d :: "point2 \<Rightarrow> point2 \<Rightarrow> real" where
  "dist2d a b = hypot (fst a - fst b) (snd a - snd b)"

definition in_activation_zone :: "point2 \<Rightarrow> bool" where
  "in_activation_zone pc =
     (case pc of (x, y) \<Rightarrow>
        (case ACTIVATION_ZONE of (xmin, xmax, ymin, ymax) \<Rightarrow>
           xmin \<le> x \<and> x \<le> xmax \<and> ymin \<le> y \<and> y \<le> ymax))"

definition can_emit :: "recognizer \<Rightarrow> real \<Rightarrow> string \<Rightarrow> bool" where
  "can_emit s now g =
     (let last_t = (case cooldowns s g of None \<Rightarrow> 0 | Some t \<Rightarrow> t);
          cooldown = (if startswith g ''pitch'' then PITCH_COOLDOWN_MS
                      else if startswith g ''bearing'' then BEARING_COOLDOWN_MS
                      else GESTURE_COOLDOWN_MS)
      in cooldown \<le> (now - last_t) * 1000)"

definition record_emit :: "recognizer \<Rightarrow> real \<Rightarrow> string \<Rightarrow> recognizer" where
  "record_emit s now g = s\<lparr>cooldowns := (cooldowns s)(g \<mapsto> now)\<rparr>"

definition reset_buffers :: "recognizer \<Rightarrow> recognizer" where
  "reset_buffers s =
     s\<lparr>dist_buf := [], palm_buf := [], tilt_buf := [], angle_buf := [],
       swipe_frames_left := 0, swipe_frames_right := 0, coast_dir := 0, coast_frames := 0\<rparr>"

definition hand_norm_dy :: "hand \<Rightarrow> real option" where
  "hand_norm_dy h =
     (let dx = fst (middle_mcp h) - fst (wrist h);
          dy = fst (snd (middle_mcp h)) - fst (snd (wrist h));
          len = hypot dx dy
      in if 1 / 100 \<le> len then Some (dy / len) else None)"

definition eval_two_hand_pitch :: "recognizer \<Rightarrow> clock \<Rightarrow> recognizer \<times> event option" where
  "eval_two_hand_pitch s clk =
     (if length (tilt_buf s) < 2 then (s, None)
      else
        let tilt_rate = last (tilt_buf s) - hd (tilt_buf s)
        in if \<bar>tilt_rate\<bar> < PITCH_TILT_RATE_MIN then (s, None)
           else
             let g = (if tilt_rate < 0 then ''pitch_up'' else ''pitch_down'');
                 intensity = min (\<bar>tilt_rate\<bar> / (3 / 10)) 1;
                 s1 = s\<lparr>state := (if g = ''pitch_up'' then STATE_PITCH_UP else STATE_PITCH_DOWN)\<rparr>
             in if \<not> can_emit s1 (fst clk) g then (s1, None)
                else (record_emit s1 (snd clk) g, Some (IntensityEvent g (py_round intensity 3))))"

definition eval_two_hand ::
  "recognizer \<Rightarrow> hand \<Rightarrow> hand \<Rightarrow> clock \<Rightarrow> recognizer \<times> event option" where
  "eval_two_hand s hand_a hand_b clk =
     (let s1 = s\<lparr>palm_buf := [], angle_buf := [], swipe_frames_left := 0, swipe_frames_right := 0\<rparr>;
          pc_a = palm_center hand_a;
          pc_b = palm_center hand_b
      in if \<not> in_activation_zone pc_a \<and> \<not> in_activation_zone pc_b
         then (s1\<lparr>dist_buf := [], tilt_buf := []\<rparr>, None)
         else
           let s2 = s1\<lparr>dist_buf := deque_append (dist_buf s1) (dist2d pc_a pc_b)\<rparr>;
               s3 = (case (hand_norm_dy hand_a, hand_norm_dy hand_b) of
                       (Some ndy_a, Some ndy_b) \<Rightarrow>
                         s2\<lparr>tilt_buf := deque_append (tilt_buf s2) ((ndy_a + ndy_b) / 2)\<rparr>
                     | _ \<Rightarrow> s2)
           in if length (dist_buf s3) < 2 then (s3, None)
              else
                let dist_rate = last (dist_buf s3) - hd (dist_buf s3)
                in if ZOOM_DIST_RATE_MIN \<le> \<bar>dist_rate\<bar>
                   then
                     let s4 = s3\<lparr>state := STATE_ZOOM\<rparr>;
                         g = (if 0 < dist_rate then ''zoom_out'' else ''zoom_in'');
                         intensity = min (\<bar>dist_rate\<bar> / (3 / 10)) 1
                     in if \<not> can_emit s4 (fst clk) g then (s4, None)
                        else (record_emit s4 (snd clk) g,
                              Some (IntensityEvent g (py_round intensity 3)))
                   else eval_two_hand_pitch s3 clk)"

definition eval_swipe :: "recognizer \<Rightarrow> real \<Rightarrow> clock \<Rightarrow> recognizer \<times> event option" where
  "eval_swipe s velocity clk =
     (if \<not> velocity < - SWIPE_VELOCITY_THRESHOLD \<and> \<not> SWIPE_VELOCITY_THRESHOLD < velocity
      then (s\<lparr>swipe_frames_left := 0, swipe_frames_right := 0\<rparr>, None)
      else
        let s1 = (if velocity < - SWIPE_VELOCITY_THRESHOLD
                  then s\<lparr>swipe_frames_left := swipe_frames_left s + 1, swipe_frames_right := 0\<rparr>
                  else s\<lparr>swipe_frames_right := swipe_frames_right s + 1, swipe_frames_left := 0\<rparr>)
        in if SWIPE_MIN_FRAMES \<le> swipe_frames_left s1
           then
             let g = ''pan_left''; vel = \<bar>velocity\<bar>
             in if \<not> can_emit s1 (fst clk) g then (s1, None)
                else ((record_emit s1 (snd clk) g)\<lparr>state := STATE_SWIPE_LEFT\<rparr>,
                      Some (VelocityEvent g (py_round vel 3)))
           else if SWIPE_MIN_FRAMES \<le> swipe_frames_right s1
           then
             let g = ''pan_right''; vel = \<bar>velocity\<bar>
             in if \<not> can_emit s1 (fst clk) g then (s1, None)
                else ((record_emit s1 (snd clk) g)\<lparr>state := STATE_SWIPE_RIGHT\<rparr>,
                      Some (VelocityEvent g (py_round vel 3)))
           else (s1, None))"

text \<open>The \<^verbatim>\<open>\<plusminus>\<pi>\<close> unwrap of one raw delta, as in the body of the loop of \<^verbatim>\<open>_eval_bearing\<close>.\<close>

definition unwrap :: "real \<Rightarrow> real" where
  "unwrap d = (if pi < d then d - 2 * pi else if d < - pi then d + 2 * pi else d)"

text \<open>
  The loop \<^verbatim>\<open>for i in range(1, len(self._angle_buf))\<close> with its accumulator
  \<^verbatim>\<open>total_delta\<close>: the list argument is the part of the buffer from index \<^verbatim>\<open>i - 1\<close> on.
\<close>

fun sum_deltas :: "real \<Rightarrow> real list \<Rightarrow> real" where
  "sum_deltas acc (a # b # rest) = sum_deltas (acc + unwrap (b - a)) (b # rest)"
| "sum_deltas acc [a] = acc"
| "sum_deltas acc [] = acc"

definition eval_bearing :: "recognizer \<Rightarrow> hand \<Rightarrow> clock \<Rightarrow> recognizer \<times> event option" where
  "eval_bearing s h clk =
     (let dx = fst (middle_mcp h) - fst (wrist h);
          dy = fst (snd (middle_mcp h)) - fst (snd (wrist h));
          len = hypot dx dy
      in if len < 1 / 100 then (s, None)
         else
           let angle = atan2 dy dx;
               s1 = s\<lparr>angle_buf := deque_append (angle_buf s) angle\<rparr>
           in if length (angle_buf s1) < 2 then (s1, None)
              else
                let total_delta = sum_deltas 0 (angle_buf s1)
                in if \<bar>total_delta\<bar> < BEARING_ANGLE_RATE_MIN then (s1, None)
                   else
                     let g = (if 0 < total_delta then ''bearing_cw'' else ''bearing_ccw'');
                         intensity = min (\<bar>total_delta\<bar> / (pi / 3)) 1;
                         s2 = s1\<lparr>state := (if g = ''bearing_cw'' then STATE_BEARING_CW
                                            else STATE_BEARING_CCW)\<rparr>
                     in if \<not> can_emit s2 (fst clk) g then (s2, None)
                        else (record_emit s2 (snd clk) g,
                              Some (IntensityEvent g (py_round intensity 3))))"

definition eval_single_hand :: "recognizer \<Rightarrow> hand \<Rightarrow> clock \<Rightarrow> recognizer \<times> event option" where
  "eval_single_hand s h clk =
     (let s1 = s\<lparr>dist_buf := [], tilt_buf := []\<rparr>;
          pc = palm_center h
      in if \<not> in_activation_zone pc then ((reset_buffers s1)\<lparr>state := STATE_IDLE\<rparr>, None)
         else
           let s2 = s1\<lparr>palm_buf := deque_append (palm_buf s1) pc\<rparr>
           in if length (palm_buf s2) < 2 then (s2, None)
              else
                let velocity = fst (last (palm_buf s2)) - fst (hd (palm_buf s2))
                in (case eval_swipe s2 velocity clk of
                      (s3, Some swipe_result) \<Rightarrow> (s3\<lparr>angle_buf := []\<rparr>, Some swipe_result)
                    | (s3, None) \<Rightarrow> eval_bearing s3 h clk))"

text \<open>
  \<^verbatim>\<open>update\<close>. Reading \<^verbatim>\<open>hands[0]\<close> or \<^verbatim>\<open>hands[1]\<close> beyond the end of the list raises
  \<^verbatim>\<open>IndexError\<close> before any field of the recogniser is written.
\<close>

definition update ::
  "recognizer \<Rightarrow> hand_data \<Rightarrow> clock \<Rightarrow> error + recognizer \<times> event option" where
  "update s hd_in clk =
     (if \<not> detected hd_in then Inr ((reset_buffers s)\<lparr>state := STATE_IDLE\<rparr>, None)
      else if 2 \<le> hand_count hd_in
      then (case hands hd_in of
              a # b # rest \<Rightarrow> Inr (eval_two_hand s a b clk)
            | _ \<Rightarrow> Inl IndexError)
      else if hand_count hd_in = 1
      then (case hands hd_in of
              a # rest \<Rightarrow> Inr (eval_single_hand s a clk)
            | [] \<Rightarrow> Inl IndexError)
      else Inr ((reset_buffers s)\<lparr>state := STATE_IDLE\<rparr>, None))"

text \<open>
  The frame loop of \<^verbatim>\<open>main.py\<close> calls \<^verbatim>\<open>update\<close> once per frame on the same
  recogniser; an exception ends the loop. \<open>run\<close> returns the final recogniser and the
  results of the calls in order.
\<close>

fun run ::
  "recognizer \<Rightarrow> (hand_data \<times> clock) list \<Rightarrow> error + recognizer \<times> event option list" where
  "run s [] = Inr (s, [])"
| "run s (f # fs) =
     (case update s (fst f) (snd f) of
        Inl e \<Rightarrow> Inl e
      | Inr (s1, r) \<Rightarrow>
          (case run s1 fs of
             Inl e \<Rightarrow> Inl e
           | Inr (s2, rs) \<Rightarrow> Inr (s2, r # rs)))"

subsection \<open>Sample frames\<close>

text \<open>Frames as the detector of \<^verbatim>\<open>hand_detector.py\<close> builds them, for the examples below.\<close>

definition no_hand_frame :: hand_data where
  "no_hand_frame = \<lparr>detected = False, hand_count = 0, hands = []\<rparr>"

definition empty_detection_frame :: hand_data where
  "empty_detection_frame = \<lparr>detected = True, hand_count = 0, hands = []\<rparr>"

text \<open>A hand whose middle-finger base is straight above its wrist, with the palm at \<open>(x, y)\<close>.\<close>

definition upright_hand :: "real \<Rightarrow> real \<Rightarrow> hand" where
  "upright_hand x y = \<lparr>palm_center = (x, y), wrist = (x, y + 1 / 10, 0), middle_mcp = (x, y, 0)\<rparr>"

definition one_hand_frame :: "hand \<Rightarrow> hand_data" where
  "one_hand_frame h = \<lparr>detected = True, hand_count = 1, hands = [h]\<rparr>"

definition two_hand_frame :: "hand \<Rightarrow> hand \<Rightarrow> hand_data" where
  "two_hand_frame a b = \<lparr>detected = True, hand_count = 2, hands = [a, b]\<rparr>"

text \<open>Two hands at the same height, 0.2 and then 0.3 apart.\<close>

definition zoom_frame_1 :: hand_data where
  "zoom_frame_1 = two_hand_frame (upright_hand (3 / 10) (1 / 2)) (upright_hand (5 / 10) (1 / 2))"

definition zoom_frame_2 :: hand_data where
  "zoom_frame_2 = two_hand_frame (upright_hand (3 / 10) (1 / 2)) (upright_hand (6 / 10) (1 / 2))"

text \<open>The recogniser after \<open>zoom_frame_1\<close> and \<open>zoom_frame_2\<close> at the clock readings 0.5 and 1.\<close>

definition zoom_state :: recognizer where
  "zoom_state = init\<lparr>state := STATE_ZOOM, dist_buf := [1 / 5, 3 / 10], tilt_buf := [- 1, - 1],
                     cooldowns := [''zoom_out'' \<mapsto> 1]\<rparr>"

text \<open>A hand whose middle-finger base is level with its wrist, to the right of it.\<close>

definition level_hand :: "real \<Rightarrow> real \<Rightarrow> hand" where
  "level_hand x y =
     \<lparr>palm_center = (x, y), wrist = (x, y + 1 / 10, 0), middle_mcp = (x + 1 / 10, y + 1 / 10, 0)\<rparr>"

text \<open>
  Four frames of two hands: 0.2 apart, then three times 0.3 apart, the last two 50 ms and
  100 ms after the second.
\<close>

definition zoom_run :: "(hand_data \<times> clock) list" where
  "zoom_run = [(zoom_frame_1, (1, 1)), (zoom_frame_2, (2, 2)),
               (zoom_frame_2, (41 / 20, 41 / 20)), (zoom_frame_2, (21 / 10, 21 / 10))]"

definition zoom_out_event :: event where
  "zoom_out_event = IntensityEvent ''zoom_out'' (333 / 1000)"

text \<open>
  Four frames, 30 ms apart, of one upright hand that moves left by 0.1 a frame, and the
  recogniser after them: the fourth frame confirms the swipe and emits \<^verbatim>\<open>pan_left\<close>.
\<close>

definition pan_run :: "(hand_data \<times> clock) list" where
  "pan_run = [(one_hand_frame (upright_hand (7 / 10) (1 / 2)), (100 / 100, 100 / 100)),
              (one_hand_frame (upright_hand (6 / 10) (1 / 2)), (103 / 100, 103 / 100)),
              (one_hand_frame (upright_hand (5 / 10) (1 / 2)), (106 / 100, 106 / 100)),
              (one_hand_frame (upright_hand (4 / 10) (1 / 2)), (109 / 100, 109 / 100))]"

definition pan_state :: recognizer where
  "pan_state = init\<lparr>state := STATE_SWIPE_LEFT,
                    palm_buf := [(7 / 10, 1 / 2), (6 / 10, 1 / 2), (5 / 10, 1 / 2), (4 / 10, 1 / 2)],
                    swipe_frames_left := 3, cooldowns := [''pan_left'' \<mapsto> 109 / 100]\<rparr>"

text \<open>The recogniser one frame later, the hand 0.1 further left 30 ms after the emission.\<close>

definition suppressed_pan_state :: recognizer where
  "suppressed_pan_state =
     pan_state\<lparr>palm_buf := [(7 / 10, 1 / 2), (6 / 10, 1 / 2), (5 / 10, 1 / 2),
                              (4 / 10, 1 / 2), (3 / 10, 1 / 2)],
               swipe_frames_left := 4, angle_buf := [- (pi / 2)]\<rparr>"

subsection \<open>Vocabulary of the properties\<close>

text \<open>The timestamp that \<^verbatim>\<open>_can_emit\<close> reads for a gesture: 0.0 when the table has no entry.\<close>

definition last_emission :: "recognizer \<Rightarrow> string \<Rightarrow> real" where
  "last_emission s g = (case cooldowns s g of None \<Rightarrow> 0 | Some t \<Rightarrow> t)"

text \<open>The eight gesture names that \<^verbatim>\<open>update\<close> builds events with.\<close>

definition gesture_kinds :: "string set" where
  "gesture_kinds = {''zoom_in'', ''zoom_out'', ''pan_left'', ''pan_right'',
                    ''pitch_up'', ''pitch_down'', ''bearing_cw'', ''bearing_ccw''}"

text \<open>
  The cooldown interval of a gesture kind in milliseconds, by kind: 50 for the pitch and
  bearing kinds, 80 for the others. \<^verbatim>\<open>_can_emit\<close> selects it by the prefix of the name;
  \<open>can_emit_kind\<close> below shows that the two agree on the eight kinds.
\<close>

definition cooldown_interval_ms :: "string \<Rightarrow> real" where
  "cooldown_interval_ms g =
     (if g \<in> {''pitch_up'', ''pitch_down'', ''bearing_cw'', ''bearing_ccw''} then 50 else 80)"

text \<open>
  What a call returns against the table it was given: nothing and the same table, or an
  event whose gate was open at the first clock reading and whose entry is the second.
\<close>

definition gated :: "recognizer \<Rightarrow> clock \<Rightarrow> recognizer \<times> event option \<Rightarrow> bool" where
  "gated s clk res =
     (case snd res of
        None \<Rightarrow> cooldowns (fst res) = cooldowns s
      | Some ev \<Rightarrow> gesture ev \<in> gesture_kinds \<and> can_emit s (fst clk) (gesture ev)
                 \<and> cooldowns (fst res) = (cooldowns s)(gesture ev \<mapsto> snd clk))"

text \<open>
  The three methods that hold a cooldown gate (\<^verbatim>\<open>_eval_two_hand\<close> holds the zoom gate and
  ends in \<^verbatim>\<open>_eval_two_hand_pitch\<close> with the pitch gate), with their arguments.
\<close>

datatype gate_site = TwoHandSite hand hand | SwipeSite real | BearingSite hand

fun eval_site :: "recognizer \<Rightarrow> gate_site \<Rightarrow> clock \<Rightarrow> recognizer \<times> event option" where
  "eval_site s (TwoHandSite a b) clk = eval_two_hand s a b clk"
| "eval_site s (SwipeSite v) clk = eval_swipe s v clk"
| "eval_site s (BearingSite h) clk = eval_bearing s h clk"

definition zoom_site :: gate_site where
  "zoom_site = TwoHandSite (upright_hand (3 / 10) (1 / 2)) (upright_hand (6 / 10) (1 / 2))"

text \<open>The recogniser after the buffer writes of \<^verbatim>\<open>_eval_two_hand\<close>, ahead of its decisions.\<close>

definition two_hand_buffers :: "recognizer \<Rightarrow> hand \<Rightarrow> hand \<Rightarrow> recognizer" where
  "two_hand_buffers s a b =
     (case (hand_norm_dy a, hand_norm_dy b) of
        (Some ndy_a, Some ndy_b) \<Rightarrow>
          s\<lparr>palm_buf := [], angle_buf := [], swipe_frames_left := 0, swipe_frames_right := 0,
            dist_buf := deque_append (dist_buf s) (dist2d (palm_center a) (palm_center b)),
            tilt_buf := deque_append (tilt_buf s) ((ndy_a + ndy_b) / 2)\<rparr>
      | _ \<Rightarrow>
          s\<lparr>palm_buf := [], angle_buf := [], swipe_frames_left := 0, swipe_frames_right := 0,
            dist_buf := deque_append (dist_buf s) (dist2d (palm_center a) (palm_center b))\<rparr>)"

text \<open>Every buffered palm centre passed the zone test; an event's magnitude is in \<open>[0, 1]\<close>.\<close>

definition palm_inv :: "recognizer \<Rightarrow> bool" where
  "palm_inv s = (\<forall>p \<in> set (palm_buf s). in_activation_zone p)"

definition unit_result :: "event option \<Rightarrow> bool" where
  "unit_result r = (case r of None \<Rightarrow> True | Some ev \<Rightarrow> 0 \<le> magnitude ev \<and> magnitude ev \<le> 1)"

section \<open>Helper facts\<close>

lemma hypot_zero_right [simp]: "hypot x 0 = \<bar>x\<bar>"
  by (simp add: hypot_def)

lemma hypot_zero_left [simp]: "hypot 0 y = \<bar>y\<bar>"
  by (simp add: hypot_def)

lemma in_activation_zone_iff:
  "in_activation_zone (x, y) = (2 / 10 \<le> x \<and> x \<le> 8 / 10 \<and> 15 / 100 \<le> y \<and> y \<le> 85 / 100)"
  by (simp add: in_activation_zone_def ACTIVATION_ZONE_def)

lemma can_emit_cooldowns: "cooldowns s1 = cooldowns s2 \<Longrightarrow> can_emit s1 now g = can_emit s2 now g"
  by (simp add: can_emit_def)

lemma can_emit_update [simp]:
  "can_emit (s\<lparr>state := x\<rparr>) = can_emit s"
  "can_emit (s\<lparr>dist_buf := ds\<rparr>) = can_emit s"
  "can_emit (s\<lparr>palm_buf := ps\<rparr>) = can_emit s"
  "can_emit (s\<lparr>tilt_buf := ts\<rparr>) = can_emit s"
  "can_emit (s\<lparr>angle_buf := as\<rparr>) = can_emit s"
  "can_emit (s\<lparr>swipe_frames_left := l\<rparr>) = can_emit s"
  "can_emit (s\<lparr>swipe_frames_right := r\<rparr>) = can_emit s"
  by (simp_all add: can_emit_def fun_eq_iff)

section \<open>Idle and reset\<close>

lemma update_idle:
  "\<not> detected obs \<or> hand_count obs = 0 \<Longrightarrow>
     update s obs clk = Inr ((reset_buffers s)\<lparr>state := STATE_IDLE\<rparr>, None)"
  by (auto simp: update_def)

lemma run_idle:
  assumes "\<forall>f \<in> set fs. \<not> detected (fst f) \<or> hand_count (fst f) = 0"
  shows "run s fs = Inr (if fs = [] then s else (reset_buffers s)\<lparr>state := STATE_IDLE\<rparr>,
                         replicate (length fs) None)"
  using assms
proof (induction fs arbitrary: s)
  case Nil
  then show ?case by simp
next
  case (Cons f fs)
  then show ?case
    by (cases "fs = []") (simp_all add: update_idle reset_buffers_def)
qed

text \<open>
  Claim C6. Any non-empty series of calls of \<^verbatim>\<open>update\<close> on frames with
  \<^verbatim>\<open>detected\<close> false or \<^verbatim>\<open>hand_count\<close> 0 returns nothing at every call and leaves the
  recogniser in state Idle with the four sliding buffers empty and both swipe counters 0.
  The next call, on a frame with one hand inside the activation zone, buffers that one palm
  sample and returns nothing as well.
\<close>

theorem idle_reset:
  assumes "fs \<noteq> []"
    and "\<forall>f \<in> set fs. \<not> detected (fst f) \<or> hand_count (fst f) = 0"
    and "detected obs1" and "hand_count obs1 = 1" and "hands obs1 = h # rest"
    and "in_activation_zone (palm_center h)"
  shows "\<exists>s' s''. run s fs = Inr (s', replicate (length fs) None)
           \<and> state s' = STATE_IDLE
           \<and> dist_buf s' = [] \<and> palm_buf s' = [] \<and> tilt_buf s' = [] \<and> angle_buf s' = []
           \<and> swipe_frames_left s' = 0 \<and> swipe_frames_right s' = 0
           \<and> update s' obs1 clk1 = Inr (s'', None) \<and> palm_buf s'' = [palm_center h]"
  using assms
  by (simp add: run_idle update_def eval_single_hand_def reset_buffers_def deque_append_def
      SMOOTHING_WINDOW_def)

theorem idle_reset_witness:
  "\<exists>s' s''. run init [(no_hand_frame, (0, 0)), (empty_detection_frame, (1, 1))] = Inr (s', [None, None])
           \<and> state s' = STATE_IDLE
           \<and> dist_buf s' = [] \<and> palm_buf s' = [] \<and> tilt_buf s' = [] \<and> angle_buf s' = []
           \<and> swipe_frames_left s' = 0 \<and> swipe_frames_right s' = 0
           \<and> update s' (one_hand_frame (upright_hand (1 / 2) (1 / 2))) (2, 2) = Inr (s'', None)
           \<and> palm_buf s'' = [(1 / 2, 1 / 2)]"
  using idle_reset [of "[(no_hand_frame, (0, 0)), (empty_detection_frame, (1, 1))]"
      "one_hand_frame (upright_hand (1 / 2) (1 / 2))" "upright_hand (1 / 2) (1 / 2)" "[]" init "(2, 2)"]
  by (simp add: no_hand_frame_def empty_detection_frame_def one_hand_frame_def upright_hand_def
      in_activation_zone_def ACTIVATION_ZONE_def)

text \<open>
  Claim C9. A call of \<^verbatim>\<open>update\<close> with \<^verbatim>\<open>detected\<close> true and \<^verbatim>\<open>hand_count\<close> 0 does not
  raise: it returns nothing and leaves the recogniser as the call with \<^verbatim>\<open>detected\<close>
  false does, reset by \<^verbatim>\<open>_reset_buffers\<close> and in state Idle.
\<close>

theorem update_detected_without_hands:
  assumes "detected obs" and "hand_count obs = 0"
  shows "\<exists>s'. update s obs clk = Inr (s', None)
           \<and> update s (obs\<lparr>detected := False\<rparr>) clk = Inr (s', None)
           \<and> s' = (reset_buffers s)\<lparr>state := STATE_IDLE\<rparr>
           \<and> state s' = STATE_IDLE
           \<and> dist_buf s' = [] \<and> palm_buf s' = [] \<and> tilt_buf s' = [] \<and> angle_buf s' = []
           \<and> swipe_frames_left s' = 0 \<and> swipe_frames_right s' = 0"
  using assms by (simp add: update_def reset_buffers_def)

theorem update_detected_without_hands_witness:
  "\<exists>s'. update init empty_detection_frame (1, 1) = Inr (s', None)
           \<and> update init no_hand_frame (1, 1) = Inr (s', None)
           \<and> s' = (reset_buffers init)\<lparr>state := STATE_IDLE\<rparr>
           \<and> state s' = STATE_IDLE
           \<and> dist_buf s' = [] \<and> palm_buf s' = [] \<and> tilt_buf s' = [] \<and> angle_buf s' = []
           \<and> swipe_frames_left s' = 0 \<and> swipe_frames_right s' = 0"
  using update_detected_without_hands [of empty_detection_frame init "(1, 1)"]
  by (simp add: empty_detection_frame_def no_hand_frame_def)

section \<open>Activation zone\<close>

text \<open>
  Claim C7, amended. The zone test is inclusive at its four bounds. A single-hand call
  whose palm centre is outside the zone resets all buffers and counters, sets the state to
  Idle, returns nothing and leaves the cooldown table as it was. A two-hand call with
  neither palm centre inside the zone returns nothing and leaves the state field and the
  cooldown table as they were, and it clears all four sliding buffers and both swipe
  counters: the single-hand ones on entry to \<^verbatim>\<open>_eval_two_hand\<close>, the two-hand ones in
  the zone test.
\<close>

theorem activation_zone_gating:
  assumes "detected obs1" and "hand_count obs1 = 1" and "hands obs1 = h # rest1"
    and "\<not> in_activation_zone (palm_center h)"
    and "detected obs2" and "2 \<le> hand_count obs2" and "hands obs2 = a # b # rest2"
    and "\<not> in_activation_zone (palm_center a)" and "\<not> in_activation_zone (palm_center b)"
  shows "(case ACTIVATION_ZONE of (xmin, xmax, ymin, ymax) \<Rightarrow>
            in_activation_zone (xmin, ymin) \<and> in_activation_zone (xmin, ymax)
          \<and> in_activation_zone (xmax, ymin) \<and> in_activation_zone (xmax, ymax))
       \<and> update s obs1 clk = Inr ((reset_buffers s)\<lparr>state := STATE_IDLE\<rparr>, None)
       \<and> cooldowns ((reset_buffers s)\<lparr>state := STATE_IDLE\<rparr>) = cooldowns s
       \<and> update s obs2 clk =
           Inr (s\<lparr>dist_buf := [], palm_buf := [], tilt_buf := [], angle_buf := [],
                  swipe_frames_left := 0, swipe_frames_right := 0\<rparr>, None)"
  using assms
  by (simp add: update_def eval_single_hand_def eval_two_hand_def reset_buffers_def
      in_activation_zone_def ACTIVATION_ZONE_def)

theorem activation_zone_gating_witness:
  "in_activation_zone (2 / 10, 15 / 100) \<and> in_activation_zone (2 / 10, 85 / 100)
     \<and> in_activation_zone (8 / 10, 15 / 100) \<and> in_activation_zone (8 / 10, 85 / 100)
     \<and> update zoom_state (one_hand_frame (upright_hand (1 / 10) (1 / 2))) (2, 2)
         = Inr (init\<lparr>cooldowns := [''zoom_out'' \<mapsto> 1]\<rparr>, None)
     \<and> update zoom_state (two_hand_frame (upright_hand (1 / 10) (1 / 2)) (upright_hand (9 / 10) (1 / 2))) (2, 2)
         = Inr (init\<lparr>state := STATE_ZOOM, cooldowns := [''zoom_out'' \<mapsto> 1]\<rparr>, None)"
  using activation_zone_gating [of "one_hand_frame (upright_hand (1 / 10) (1 / 2))"
      "upright_hand (1 / 10) (1 / 2)" "[]"
      "two_hand_frame (upright_hand (1 / 10) (1 / 2)) (upright_hand (9 / 10) (1 / 2))"
      "upright_hand (1 / 10) (1 / 2)" "upright_hand (9 / 10) (1 / 2)" "[]" zoom_state "(2, 2)"]
  by (simp add: one_hand_frame_def two_hand_frame_def upright_hand_def in_activation_zone_iff
      ACTIVATION_ZONE_def zoom_state_def init_def reset_buffers_def)

text \<open>
  Claim C7 as stated fails: the palm sample that a single-hand frame has buffered is gone
  after a two-hand frame with both palms outside the zone, so not only the two-hand
  buffers are cleared.
\<close>

theorem two_hand_exit_clears_single_hand_buffers:
  "run init [(one_hand_frame (upright_hand (1 / 2) (1 / 2)), (1, 1))]
     = Inr (init\<lparr>palm_buf := [(1 / 2, 1 / 2)]\<rparr>, [None])
   \<and> run init [(one_hand_frame (upright_hand (1 / 2) (1 / 2)), (1, 1)),
                (two_hand_frame (upright_hand (1 / 10) (1 / 2)) (upright_hand (9 / 10) (1 / 2)), (2, 2))]
     = Inr (init, [None, None])
   \<and> palm_buf (init\<lparr>palm_buf := [(1 / 2, 1 / 2)]\<rparr>) \<noteq> palm_buf init"
  by (simp add: one_hand_frame_def two_hand_frame_def upright_hand_def in_activation_zone_iff
      update_def eval_single_hand_def eval_two_hand_def deque_append_def SMOOTHING_WINDOW_def init_def)

section \<open>Two-hand evaluation: zoom before pitch\<close>

lemma eval_two_hand_pitch_result:
  assumes "eval_two_hand_pitch s clk = (s', r)"
  shows "dist_buf s' = dist_buf s \<and> tilt_buf s' = tilt_buf s
       \<and> r = (let tilt = last (tilt_buf s) - hd (tilt_buf s)
              in if 2 \<le> length (tilt_buf s) \<and> tilt \<le> - PITCH_TILT_RATE_MIN
                 then (if can_emit s (fst clk) ''pitch_up''
                       then Some (IntensityEvent ''pitch_up'' (py_round (min (\<bar>tilt\<bar> / (3 / 10)) 1) 3))
                       else None)
                 else if 2 \<le> length (tilt_buf s) \<and> PITCH_TILT_RATE_MIN \<le> tilt
                 then (if can_emit s (fst clk) ''pitch_down''
                       then Some (IntensityEvent ''pitch_down'' (py_round (min (\<bar>tilt\<bar> / (3 / 10)) 1) 3))
                       else None)
                 else None)
       \<and> state s' = (let tilt = last (tilt_buf s) - hd (tilt_buf s)
              in if 2 \<le> length (tilt_buf s) \<and> tilt \<le> - PITCH_TILT_RATE_MIN then STATE_PITCH_UP
                 else if 2 \<le> length (tilt_buf s) \<and> PITCH_TILT_RATE_MIN \<le> tilt then STATE_PITCH_DOWN
                 else state s)"
  using assms
  by (auto simp: eval_two_hand_pitch_def Let_def record_emit_def PITCH_TILT_RATE_MIN_def
      split: if_splits)

text \<open>
  Claim C4, amended. After a two-hand evaluation that leaves at least 2 samples in the
  distance buffer, with \<open>delta\<close> the newest minus the oldest distance sample and \<open>tilt\<close>
  the newest minus the oldest tilt sample: if \<open>\<bar>delta\<bar>\<close> reaches \<^verbatim>\<open>ZOOM_DIST_RATE_MIN\<close> the
  candidate is \<^verbatim>\<open>zoom_out\<close> for a positive and \<^verbatim>\<open>zoom_in\<close> for a negative \<open>delta\<close>, the
  state becomes Zoom and pitch is not evaluated; otherwise, if the tilt buffer has at least
  2 samples and \<open>\<bar>tilt\<bar>\<close> reaches \<^verbatim>\<open>PITCH_TILT_RATE_MIN\<close>, the candidate is \<^verbatim>\<open>pitch_up\<close>
  for a negative and \<^verbatim>\<open>pitch_down\<close> for a positive \<open>tilt\<close>. The call returns the candidate
  when its cooldown gate is open, with the intensity \<open>min (\<bar>rate\<bar> / 0.3) 1\<close> rounded to three
  decimals by \<^verbatim>\<open>round(intensity, 3)\<close>, and nothing in every other case.
\<close>

theorem two_hand_classification:
  assumes "eval_two_hand s a b clk = (s', r)" and "2 \<le> length (dist_buf s')"
  shows "r = (let delta = last (dist_buf s') - hd (dist_buf s');
                  tilt = last (tilt_buf s') - hd (tilt_buf s')
              in if ZOOM_DIST_RATE_MIN \<le> delta
                 then (if can_emit s (fst clk) ''zoom_out''
                       then Some (IntensityEvent ''zoom_out'' (py_round (min (\<bar>delta\<bar> / (3 / 10)) 1) 3))
                       else None)
                 else if delta \<le> - ZOOM_DIST_RATE_MIN
                 then (if can_emit s (fst clk) ''zoom_in''
                       then Some (IntensityEvent ''zoom_in'' (py_round (min (\<bar>delta\<bar> / (3 / 10)) 1) 3))
                       else None)
                 else if 2 \<le> length (tilt_buf s') \<and> tilt \<le> - PITCH_TILT_RATE_MIN
                 then (if can_emit s (fst clk) ''pitch_up''
                       then Some (IntensityEvent ''pitch_up'' (py_round (min (\<bar>tilt\<bar> / (3 / 10)) 1) 3))
                       else None)
                 else if 2 \<le> length (tilt_buf s') \<and> PITCH_TILT_RATE_MIN \<le> tilt
                 then (if can_emit s (fst clk) ''pitch_down''
                       then Some (IntensityEvent ''pitch_down'' (py_round (min (\<bar>tilt\<bar> / (3 / 10)) 1) 3))
                       else None)
                 else None)
       \<and> state s' = (let delta = last (dist_buf s') - hd (dist_buf s');
                  tilt = last (tilt_buf s') - hd (tilt_buf s')
              in if ZOOM_DIST_RATE_MIN \<le> \<bar>delta\<bar> then STATE_ZOOM
                 else if 2 \<le> length (tilt_buf s') \<and> tilt \<le> - PITCH_TILT_RATE_MIN then STATE_PITCH_UP
                 else if 2 \<le> length (tilt_buf s') \<and> PITCH_TILT_RATE_MIN \<le> tilt then STATE_PITCH_DOWN
                 else state s)"
proof -
  define s3 where "s3 = (let s1 = s\<lparr>palm_buf := [], angle_buf := [], swipe_frames_left := 0, swipe_frames_right := 0\<rparr>;
       s2 = s1\<lparr>dist_buf := deque_append (dist_buf s1) (dist2d (palm_center a) (palm_center b))\<rparr>
     in (case (hand_norm_dy a, hand_norm_dy b) of
                       (Some ndy_a, Some ndy_b) \<Rightarrow>
                         s2\<lparr>tilt_buf := deque_append (tilt_buf s2) ((ndy_a + ndy_b) / 2)\<rparr>
                     | _ \<Rightarrow> s2))"
  define delta where "delta = last (dist_buf s3) - hd (dist_buf s3)"
  define g where "g = (if 0 < delta then ''zoom_out'' else ''zoom_in'')"
  have s3: "cooldowns s3 = cooldowns s" "state s3 = state s"
    by (simp_all add: s3_def Let_def split: option.splits)
  have zone: "in_activation_zone (palm_center a) \<or> in_activation_zone (palm_center b)"
  proof (rule ccontr)
    assume "\<not> (in_activation_zone (palm_center a) \<or> in_activation_zone (palm_center b))"
    then have "dist_buf (fst (eval_two_hand s a b clk)) = []"
      by (simp add: eval_two_hand_def)
    with assms show False by simp
  qed
  from zone have nz: "(\<not> in_activation_zone (palm_center a) \<and> \<not> in_activation_zone (palm_center b)) = False"
    by simp
  have eq: "eval_two_hand s a b clk =
      (if length (dist_buf s3) < 2 then (s3, None)
       else if ZOOM_DIST_RATE_MIN \<le> \<bar>delta\<bar>
       then (if \<not> can_emit s (fst clk) g then (s3\<lparr>state := STATE_ZOOM\<rparr>, None)
             else (record_emit (s3\<lparr>state := STATE_ZOOM\<rparr>) (snd clk) g,
                   Some (IntensityEvent g (py_round (min (\<bar>delta\<bar> / (3 / 10)) 1) 3))))
       else eval_two_hand_pitch s3 clk)"
  proof (cases "hand_norm_dy a")
    case None
    then show ?thesis
      by (simp add: eval_two_hand_def s3_def delta_def g_def Let_def nz)
  next
    case (Some x)
    then show ?thesis
      by (cases "hand_norm_dy b")
        (simp_all add: eval_two_hand_def s3_def delta_def g_def Let_def nz)
  qed
  have len: "2 \<le> length (dist_buf s3)"
  proof (rule ccontr)
    assume "\<not> 2 \<le> length (dist_buf s3)"
    with eq assms(1) have "s' = s3" by simp
    with assms(2) \<open>\<not> 2 \<le> length (dist_buf s3)\<close> show False by simp
  qed
  show ?thesis
  proof (cases "ZOOM_DIST_RATE_MIN \<le> \<bar>delta\<bar>")
    case True
    with eq len assms(1) have s': "dist_buf s' = dist_buf s3" "tilt_buf s' = tilt_buf s3"
        "state s' = STATE_ZOOM"
      and r: "r = (if can_emit s (fst clk) g
                   then Some (IntensityEvent g (py_round (min (\<bar>delta\<bar> / (3 / 10)) 1) 3))
                   else None)"
      by (auto simp: record_emit_def split: if_splits)
    from True s' r show ?thesis
      unfolding Let_def s' delta_def [symmetric]
      by (auto simp: g_def ZOOM_DIST_RATE_MIN_def)
  next
    case False
    with eq len have "eval_two_hand_pitch s3 clk = (s', r)"
      using assms(1) by simp
    from eval_two_hand_pitch_result [OF this] False s3 show ?thesis
      unfolding delta_def
      by (auto simp: Let_def ZOOM_DIST_RATE_MIN_def can_emit_cooldowns [of s3 s])
  qed
qed

theorem two_hand_classification_witness:
  "eval_two_hand (init\<lparr>dist_buf := [1 / 5], tilt_buf := [- 1]\<rparr>)
       (upright_hand (3 / 10) (1 / 2)) (upright_hand (6 / 10) (1 / 2)) (2, 2)
     = (init\<lparr>state := STATE_ZOOM, dist_buf := [1 / 5, 3 / 10], tilt_buf := [- 1, - 1],
              cooldowns := [''zoom_out'' \<mapsto> 2]\<rparr>,
        Some (IntensityEvent ''zoom_out'' (333 / 1000)))
   \<and> 2 \<le> length [1 / 5, 3 / 10 :: real]
   \<and> ZOOM_DIST_RATE_MIN \<le> last [1 / 5, 3 / 10] - hd [1 / 5, 3 / 10]
   \<and> can_emit (init\<lparr>dist_buf := [1 / 5], tilt_buf := [- 1]\<rparr>) 2 ''zoom_out''
   \<and> py_round (min (\<bar>last [1 / 5, 3 / 10] - hd [1 / 5, 3 / 10]\<bar> / (3 / 10)) 1) 3 = 333 / 1000"
  using two_hand_classification [of "init\<lparr>dist_buf := [1 / 5], tilt_buf := [- 1]\<rparr>"
      "upright_hand (3 / 10) (1 / 2)" "upright_hand (6 / 10) (1 / 2)" "(2, 2)"
      "init\<lparr>state := STATE_ZOOM, dist_buf := [1 / 5, 3 / 10], tilt_buf := [- 1, - 1],
            cooldowns := [''zoom_out'' \<mapsto> 2]\<rparr>"
      "Some (IntensityEvent ''zoom_out'' (333 / 1000))"]
  by (simp add: eval_two_hand_def
      in_activation_zone_iff upright_hand_def dist2d_def deque_append_def SMOOTHING_WINDOW_def
      hand_norm_dy_def Let_def
      ZOOM_DIST_RATE_MIN_def can_emit_def startswith_def GESTURE_COOLDOWN_MS_def record_emit_def
      py_round_def round_half_even_def init_def)

text \<open>
  Claim C4 as stated fails on the magnitude: with the distance samples 0.2 and 0.3 the
  claim's magnitude is \<open>min (0.1 / 0.3) 1 = 1 / 3\<close>, and the event carries 0.333.
\<close>

theorem zoom_intensity_is_rounded:
  "run init [(zoom_frame_1, (1, 1)), (zoom_frame_2, (2, 2))]
     = Inr (init\<lparr>state := STATE_ZOOM, dist_buf := [1 / 5, 3 / 10], tilt_buf := [- 1, - 1],
                 cooldowns := [''zoom_out'' \<mapsto> 2]\<rparr>,
            [None, Some (IntensityEvent ''zoom_out'' (333 / 1000))])
   \<and> min (\<bar>last [1 / 5, 3 / 10 :: real] - hd [1 / 5, 3 / 10]\<bar> / (3 / 10)) 1 = 1 / 3
   \<and> (333 / 1000 :: real) \<noteq> 1 / 3"
  by (simp add: zoom_frame_1_def zoom_frame_2_def two_hand_frame_def update_def eval_two_hand_def
      in_activation_zone_iff upright_hand_def dist2d_def deque_append_def SMOOTHING_WINDOW_def
      hand_norm_dy_def Let_def
      ZOOM_DIST_RATE_MIN_def can_emit_def startswith_def GESTURE_COOLDOWN_MS_def record_emit_def
      py_round_def round_half_even_def init_def)

section \<open>Bearing: the unwrapped net rotation\<close>

subsection \<open>Bounds of \<open>\<pi>\<close> from the cosine series\<close>

lemma cos_upper_bound:
  assumes "0 < x"
  shows "cos x \<le> (\<Sum>m<10. cos_coeff m * x ^ m) + x ^ 10 / fact 10"
proof -
  from Maclaurin_cos_expansion2 [of x 10] assms obtain t where
    t: "cos x = (\<Sum>m<10. cos_coeff m * x ^ m) + (cos (t + 1/2 * real 10 * pi) / fact 10) * x ^ 10"
    by auto
  have "cos (t + 1/2 * real 10 * pi) * x ^ 10 \<le> 1 * x ^ 10"
    using assms by (intro mult_right_mono) simp_all
  then have "(cos (t + 1/2 * real 10 * pi) / fact 10) * x ^ 10 \<le> x ^ 10 / fact 10"
    by (simp add: divide_right_mono)
  with t show ?thesis by linarith
qed

lemma cos_lower_bound:
  assumes "0 < x"
  shows "(\<Sum>m<10. cos_coeff m * x ^ m) - x ^ 10 / fact 10 \<le> cos x"
proof -
  from Maclaurin_cos_expansion2 [of x 10] assms obtain t where
    t: "cos x = (\<Sum>m<10. cos_coeff m * x ^ m) + (cos (t + 1/2 * real 10 * pi) / fact 10) * x ^ 10"
    by auto
  have "- 1 * x ^ 10 \<le> cos (t + 1/2 * real 10 * pi) * x ^ 10"
    using assms by (intro mult_right_mono) simp_all
  then have "- 1 * x ^ 10 / fact 10 \<le> cos (t + 1/2 * real 10 * pi) * x ^ 10 / fact 10"
    by (intro divide_right_mono) simp_all
  then have "- (x ^ 10 / fact 10) \<le> (cos (t + 1/2 * real 10 * pi) / fact 10) * x ^ 10"
    by simp
  with t show ?thesis by linarith
qed

lemma cos_poly: "(\<Sum>m<10. cos_coeff m * x ^ m) = 1 - x^2 / 2 + x^4 / 24 - x^6 / 720 + x^8 / 40320"
  by (simp add: lessThan_nat_numeral lessThan_Suc cos_coeff_def fact_numeral)

lemma pi_gt_314: "314 / 100 < pi"
proof (rule ccontr)
  assume "\<not> 314 / 100 < pi"
  then have "pi / 2 \<le> 157 / 100" by simp
  moreover have "(157 / 100 :: real) \<le> pi" using pi_ge_two by simp
  ultimately have "cos (157 / 100) \<le> cos (pi / 2)"
    by (intro cos_monotone_0_pi_le) simp_all
  then have "cos (157 / 100 :: real) \<le> 0" by simp
  moreover have "0 < cos (157 / 100 :: real)"
    using cos_lower_bound [of "157 / 100", unfolded cos_poly] by (simp add: fact_numeral power_divide)
  ultimately show False by simp
qed

lemma pi_lt_3142: "pi < 3142 / 1000"
proof (rule ccontr)
  assume "\<not> pi < 3142 / 1000"
  then have "1571 / 1000 \<le> pi / 2" by simp
  then have "0 \<le> cos (1571 / 1000 :: real)"
    by (intro cos_ge_zero) simp_all
  moreover have "cos (1571 / 1000 :: real) < 0"
    using cos_upper_bound [of "1571 / 1000", unfolded cos_poly] by (simp add: fact_numeral power_divide)
  ultimately show False by simp
qed

subsection \<open>The loop of \<^verbatim>\<open>_eval_bearing\<close>\<close>

lemma sum_deltas_acc:
  "sum_deltas acc buf = acc + (\<Sum>i = 1..<length buf. unwrap (buf ! i - buf ! (i - 1)))"
proof (induction acc buf rule: sum_deltas.induct)
  case (1 acc a b rest)
  have "(\<Sum>i = 1..<length (a # b # rest). unwrap ((a # b # rest) ! i - (a # b # rest) ! (i - 1)))
      = unwrap (b - a)
        + (\<Sum>i = Suc 1..<Suc (length (b # rest)). unwrap ((a # b # rest) ! i - (a # b # rest) ! (i - 1)))"
    by (simp add: sum.atLeast_Suc_lessThan)
  also have "(\<Sum>i = Suc 1..<Suc (length (b # rest)). unwrap ((a # b # rest) ! i - (a # b # rest) ! (i - 1)))
      = (\<Sum>i = 1..<length (b # rest). unwrap ((b # rest) ! i - (b # rest) ! (i - 1)))"
    unfolding sum.shift_bounds_Suc_ivl by (rule sum.cong) auto
  finally show ?case using 1 by simp
qed simp_all

text \<open>
  Claim C5. The total that the loop of \<^verbatim>\<open>_eval_bearing\<close> accumulates from 0 over the
  angle buffer is the sum, over the consecutive pairs of buffered angles, of the raw delta
  less \<open>2\<pi>\<close> when it exceeds \<open>\<pi>\<close> and plus \<open>2\<pi>\<close> when it is below \<open>-\<pi>\<close>. For the
  buffer 3.0, 3.1, -3.1, -3.0 it is \<open>0.1 + (2\<pi> - 6.2) + 0.1\<close>, within 0.003 of 0.283.
\<close>

theorem bearing_net_rotation:
  "sum_deltas 0 buf = (\<Sum>i = 1..<length buf. unwrap (buf ! i - buf ! (i - 1)))
   \<and> sum_deltas 0 [3, 31 / 10, - (31 / 10), - 3] = 1 / 10 + (2 * pi - 62 / 10) + 1 / 10
   \<and> \<bar>sum_deltas 0 [3, 31 / 10, - (31 / 10), - 3] - 283 / 1000\<bar> < 3 / 1000"
proof -
  have val: "sum_deltas 0 [3, 31 / 10, - (31 / 10), - 3] = 1 / 10 + (2 * pi - 62 / 10) + 1 / 10"
    using pi_gt_314 pi_lt_3142 by (simp add: unwrap_def)
  have "\<bar>(1 / 10 + (2 * pi - 62 / 10) + 1 / 10) - 283 / 1000\<bar> < 3 / 1000"
    using pi_gt_314 pi_lt_3142 by linarith
  with val have "\<bar>sum_deltas 0 [3, 31 / 10, - (31 / 10), - 3] - 283 / 1000\<bar> < 3 / 1000"
    by (simp only:)
  with val show ?thesis by (simp only: sum_deltas_acc [of 0] add_0 simp_thms)
qed

section \<open>The cooldown gate\<close>

subsection \<open>Every returned event passed its gate\<close>

lemma gesture_kinds_cases:
  "g \<in> gesture_kinds \<Longrightarrow> g = ''zoom_in'' \<or> g = ''zoom_out'' \<or> g = ''pan_left'' \<or> g = ''pan_right''
    \<or> g = ''pitch_up'' \<or> g = ''pitch_down'' \<or> g = ''bearing_cw'' \<or> g = ''bearing_ccw''"
  by (simp add: gesture_kinds_def)

lemma can_emit_kind:
  assumes "g \<in> gesture_kinds"
  shows "can_emit s now g = (cooldown_interval_ms g \<le> (now - last_emission s g) * 1000)"
  using gesture_kinds_cases [OF assms]
  by (elim disjE)
    (simp_all add: can_emit_def cooldown_interval_ms_def last_emission_def startswith_def
        PITCH_COOLDOWN_MS_def BEARING_COOLDOWN_MS_def GESTURE_COOLDOWN_MS_def)

lemma can_emit_ge_last: "can_emit s now g \<Longrightarrow> last_emission s g \<le> now"
  by (auto simp: can_emit_def last_emission_def Let_def
      PITCH_COOLDOWN_MS_def BEARING_COOLDOWN_MS_def GESTURE_COOLDOWN_MS_def split: if_splits)

lemma gated_pitch: "gated s clk (eval_two_hand_pitch s clk)"
  by (simp add: gated_def eval_two_hand_pitch_def Let_def record_emit_def gesture_kinds_def)

lemma gated_cong: "cooldowns s1 = cooldowns s \<Longrightarrow> gated s1 clk res \<Longrightarrow> gated s clk res"
  by (simp add: gated_def can_emit_cooldowns [of s1 s] split: option.splits)

lemma gated_two_hand: "gated s clk (eval_two_hand s a b clk)"
proof -
  have *: "gated s clk (eval_two_hand_pitch s3 clk)" if "cooldowns s3 = cooldowns s" for s3
    using gated_cong [OF that gated_pitch] .
  show ?thesis
    unfolding eval_two_hand_def Let_def
    by (cases "hand_norm_dy a"; cases "hand_norm_dy b")
      (simp_all add: * , simp_all add: gated_def record_emit_def gesture_kinds_def)
qed

lemma gated_swipe: "gated s clk (eval_swipe s v clk)"
  by (simp add: gated_def eval_swipe_def Let_def record_emit_def gesture_kinds_def)

lemma gated_bearing: "gated s clk (eval_bearing s h clk)"
  by (simp add: gated_def eval_bearing_def Let_def record_emit_def gesture_kinds_def)

lemma gated_single_hand: "gated s clk (eval_single_hand s h clk)"
proof -
  have b: "gated s clk (eval_bearing s3 h clk)" if "cooldowns s3 = cooldowns s" for s3
    using gated_cong [OF that gated_bearing] .
  have sw: "gated s clk (eval_swipe s2 v clk)" if "cooldowns s2 = cooldowns s" for s2 v
    using gated_cong [OF that gated_swipe] .
  show ?thesis
  proof (cases "in_activation_zone (palm_center h)")
    case False
    then show ?thesis
      by (simp add: eval_single_hand_def gated_def reset_buffers_def)
  next
    case True
    define s2 where "s2 = s\<lparr>dist_buf := [], tilt_buf := [], palm_buf := deque_append (palm_buf s) (palm_center h)\<rparr>"
    define v where "v = fst (last (palm_buf s2)) - fst (hd (palm_buf s2))"
    have c2: "cooldowns s2 = cooldowns s" by (simp add: s2_def)
    have eq: "eval_single_hand s h clk =
        (if length (palm_buf s2) < 2 then (s2, None)
         else (case eval_swipe s2 v clk of
                      (s3, Some swipe_result) \<Rightarrow> (s3\<lparr>angle_buf := []\<rparr>, Some swipe_result)
                    | (s3, None) \<Rightarrow> eval_bearing s3 h clk))"
      using True by (simp add: eval_single_hand_def s2_def v_def Let_def)
    show ?thesis
    proof (cases "length (palm_buf s2) < 2")
      case True
      with eq c2 show ?thesis by (simp add: gated_def)
    next
      case False
      obtain s3 r where sw3: "eval_swipe s2 v clk = (s3, r)" by force
      from sw [OF c2, of v] sw3 have g3: "gated s clk (s3, r)" by simp
      show ?thesis
      proof (cases r)
        case None
        with g3 have "cooldowns s3 = cooldowns s" by (simp add: gated_def)
        from b [OF this] eq False sw3 None show ?thesis by simp
      next
        case (Some ev)
        with g3 eq False sw3 show ?thesis by (simp add: gated_def)
      qed
    qed
  qed
qed

lemma gated_update:
  assumes "update s obs clk = Inr res"
  shows "gated s clk res"
proof -
  have idle: "gated s clk ((reset_buffers s)\<lparr>state := STATE_IDLE\<rparr>, None)"
    by (simp add: gated_def reset_buffers_def)
  from assms show ?thesis
    by (auto simp: update_def idle gated_two_hand gated_single_hand
        split: if_splits list.splits)
qed

subsection \<open>Series of calls\<close>

lemma last_emission_mono:
  assumes "gated s clk (s', r)" and "fst clk \<le> snd clk"
  shows "last_emission s g \<le> last_emission s' g"
proof (cases r)
  case None
  with assms show ?thesis by (simp add: gated_def last_emission_def)
next
  case (Some ev)
  with assms have c: "can_emit s (fst clk) (gesture ev)"
    and cd: "cooldowns s' = (cooldowns s)(gesture ev \<mapsto> snd clk)"
    by (simp_all add: gated_def)
  show ?thesis
  proof (cases "g = gesture ev")
    case True
    with can_emit_ge_last [OF c] assms(2) cd show ?thesis
      by (simp add: last_emission_def)
  next
    case False
    with cd show ?thesis by (simp add: last_emission_def)
  qed
qed

lemma run_Cons_elim:
  assumes "run s (f # fs) = Inr (s', outs)"
  obtains s1 r rs where "update s (fst f) (snd f) = Inr (s1, r)" and "run s1 fs = Inr (s', rs)"
    and "outs = r # rs"
  using assms by (auto split: sum.splits prod.splits)

lemma run_length: "run s fs = Inr (s', outs) \<Longrightarrow> length outs = length fs"
proof (induction fs arbitrary: s outs)
  case Nil
  then show ?case by simp
next
  case (Cons f fs)
  from Cons.prems obtain s1 r rs where "run s1 fs = Inr (s', rs)" and "outs = r # rs"
    by (rule run_Cons_elim)
  with Cons.IH show ?case by simp
qed

lemma run_gate:
  assumes "run s0 fs = Inr (s, outs)"
    and "\<forall>f \<in> set fs. fst (snd f) \<le> snd (snd f)"
    and "j < length fs" and "outs ! j = Some ej"
  shows "gesture ej \<in> gesture_kinds
       \<and> cooldown_interval_ms (gesture ej)
           \<le> (fst (snd (fs ! j)) - last_emission s0 (gesture ej)) * 1000"
  using assms
proof (induction fs arbitrary: s0 outs j)
  case Nil
  then show ?case by simp
next
  case (Cons f fs)
  from Cons.prems(1) obtain s1 r rs where
    u: "update s0 (fst f) (snd f) = Inr (s1, r)" and rn: "run s1 fs = Inr (s, rs)"
    and outs: "outs = r # rs"
    by (rule run_Cons_elim)
  from gated_update [OF u] have g: "gated s0 (snd f) (s1, r)" .
  show ?case
  proof (cases j)
    case 0
    with Cons.prems(4) outs have "r = Some ej" by simp
    with g have "gesture ej \<in> gesture_kinds" and "can_emit s0 (fst (snd f)) (gesture ej)"
      by (simp_all add: gated_def)
    with 0 show ?thesis by (simp add: can_emit_kind)
  next
    case (Suc j')
    with Cons.prems outs have "j' < length fs" and "rs ! j' = Some ej"
      and "\<forall>f \<in> set fs. fst (snd f) \<le> snd (snd f)"
      by simp_all
    from Cons.IH [OF rn this(3) this(1) this(2)]
    have k: "gesture ej \<in> gesture_kinds"
      and le: "cooldown_interval_ms (gesture ej)
                \<le> (fst (snd (fs ! j')) - last_emission s1 (gesture ej)) * 1000"
      by simp_all
    from Cons.prems(2) have "fst (snd f) \<le> snd (snd f)" by simp
    from last_emission_mono [OF g this]
    have "last_emission s0 (gesture ej) \<le> last_emission s1 (gesture ej)" .
    with le k Suc show ?thesis by simp
  qed
qed

lemma run_separation:
  assumes "run s0 fs = Inr (s, outs)"
    and "\<forall>f \<in> set fs. fst (snd f) \<le> snd (snd f)"
    and "i < j" and "j < length fs"
    and "outs ! i = Some ei" and "outs ! j = Some ej" and "gesture ei = gesture ej"
  shows "cooldown_interval_ms (gesture ej) \<le> (fst (snd (fs ! j)) - snd (snd (fs ! i))) * 1000"
  using assms
proof (induction fs arbitrary: s0 outs i j)
  case Nil
  then show ?case by simp
next
  case (Cons f fs)
  from Cons.prems(1) obtain s1 r rs where
    u: "update s0 (fst f) (snd f) = Inr (s1, r)" and rn: "run s1 fs = Inr (s, rs)"
    and outs: "outs = r # rs"
    by (rule run_Cons_elim)
  from Cons.prems(3) obtain j' where j: "j = Suc j'" by (cases j) simp_all
  with Cons.prems outs have j': "j' < length fs" "rs ! j' = Some ej"
    and clk: "\<forall>f \<in> set fs. fst (snd f) \<le> snd (snd f)"
    by simp_all
  show ?case
  proof (cases i)
    case 0
    with Cons.prems(5) outs have "r = Some ei" by simp
    with gated_update [OF u] Cons.prems(7)
    have "last_emission s1 (gesture ej) = snd (snd f)"
      by (simp add: gated_def last_emission_def)
    with run_gate [OF rn clk j'] 0 j show ?thesis by simp
  next
    case (Suc i')
    with Cons.prems outs j have "i' < j'" and "rs ! i' = Some ei" by simp_all
    from Cons.IH [OF rn clk this(1) j'(1) this(2) j'(2) Cons.prems(7)] Suc j
    show ?thesis by simp
  qed
qed

lemma run_never_emitted:
  assumes "run s0 fs = Inr (s, outs)" and "\<forall>ev. Some ev \<in> set outs \<longrightarrow> gesture ev \<noteq> g"
  shows "cooldowns s g = cooldowns s0 g"
  using assms
proof (induction fs arbitrary: s0 outs)
  case Nil
  then show ?case by simp
next
  case (Cons f fs)
  from Cons.prems(1) obtain s1 r rs where
    u: "update s0 (fst f) (snd f) = Inr (s1, r)" and rn: "run s1 fs = Inr (s, rs)"
    and outs: "outs = r # rs"
    by (rule run_Cons_elim)
  from Cons.prems(2) outs have "\<forall>ev. Some ev \<in> set rs \<longrightarrow> gesture ev \<noteq> g"
    and r: "\<forall>ev. r = Some ev \<longrightarrow> gesture ev \<noteq> g"
    by auto
  from Cons.IH [OF rn this(1)] have "cooldowns s g = cooldowns s1 g" .
  moreover from gated_update [OF u] r have "cooldowns s1 g = cooldowns s0 g"
    by (cases r) (simp_all add: gated_def)
  ultimately show ?case by simp
qed

subsection \<open>The same call under another clock\<close>

lemma two_hand_buffers_fields [simp]:
  "cooldowns (two_hand_buffers s a b) = cooldowns s"
  "state (two_hand_buffers s a b) = state s"
  "palm_buf (two_hand_buffers s a b) = []"
  "angle_buf (two_hand_buffers s a b) = []"
  "swipe_frames_left (two_hand_buffers s a b) = 0"
  "swipe_frames_right (two_hand_buffers s a b) = 0"
  by (simp_all add: two_hand_buffers_def split: option.splits)

lemma eval_two_hand_in_zone:
  assumes "in_activation_zone (palm_center a) \<or> in_activation_zone (palm_center b)"
  shows "eval_two_hand s a b clk =
      (let s3 = two_hand_buffers s a b; delta = last (dist_buf s3) - hd (dist_buf s3);
           g = (if 0 < delta then ''zoom_out'' else ''zoom_in'')
       in if length (dist_buf s3) < 2 then (s3, None)
          else if ZOOM_DIST_RATE_MIN \<le> \<bar>delta\<bar>
          then (if \<not> can_emit s (fst clk) g then (s3\<lparr>state := STATE_ZOOM\<rparr>, None)
                else (record_emit (s3\<lparr>state := STATE_ZOOM\<rparr>) (snd clk) g,
                      Some (IntensityEvent g (py_round (min (\<bar>delta\<bar> / (3 / 10)) 1) 3))))
          else eval_two_hand_pitch s3 clk)"
proof -
  from assms have nz: "(\<not> in_activation_zone (palm_center a) \<and> \<not> in_activation_zone (palm_center b)) = False"
    by simp
  show ?thesis
  proof (cases "hand_norm_dy a")
    case None
    then show ?thesis
      by (simp add: eval_two_hand_def two_hand_buffers_def Let_def nz)
  next
    case (Some x)
    then show ?thesis
      by (cases "hand_norm_dy b")
        (simp_all add: eval_two_hand_def two_hand_buffers_def Let_def nz)
  qed
qed

lemma eval_two_hand_out_of_zone:
  assumes "\<not> (in_activation_zone (palm_center a) \<or> in_activation_zone (palm_center b))"
  shows "eval_two_hand s a b clk =
      (s\<lparr>palm_buf := [], angle_buf := [], swipe_frames_left := 0, swipe_frames_right := 0,
         dist_buf := [], tilt_buf := []\<rparr>, None)"
  using assms by (simp add: eval_two_hand_def)

lemma gate_outcome_swipe:
  assumes "eval_swipe s v clk0 = (sc, Some ev)"
  shows "eval_swipe s v (t1, t2) =
     (if can_emit s t1 (gesture ev)
      then (sc\<lparr>cooldowns := (cooldowns s)(gesture ev \<mapsto> t2)\<rparr>, Some ev)
      else (sc\<lparr>cooldowns := cooldowns s, state := state s\<rparr>, None))"
  using assms
  by (auto simp: eval_swipe_def Let_def record_emit_def split: if_splits)

lemma gate_outcome_bearing:
  assumes "eval_bearing s h clk0 = (sc, Some ev)"
  shows "eval_bearing s h (t1, t2) =
     (if can_emit s t1 (gesture ev)
      then (sc\<lparr>cooldowns := (cooldowns s)(gesture ev \<mapsto> t2)\<rparr>, Some ev)
      else (sc\<lparr>cooldowns := cooldowns s\<rparr>, None))"
  using assms
  by (auto simp: eval_bearing_def Let_def record_emit_def split: if_splits)

lemma gate_outcome_pitch:
  assumes "eval_two_hand_pitch s clk0 = (sc, Some ev)"
  shows "eval_two_hand_pitch s (t1, t2) =
     (if can_emit s t1 (gesture ev)
      then (sc\<lparr>cooldowns := (cooldowns s)(gesture ev \<mapsto> t2)\<rparr>, Some ev)
      else (sc\<lparr>cooldowns := cooldowns s\<rparr>, None))"
  using assms
  by (auto simp: eval_two_hand_pitch_def Let_def record_emit_def split: if_splits)

lemma gate_outcome_two_hand:
  assumes "eval_two_hand s a b clk0 = (sc, Some ev)"
  shows "eval_two_hand s a b (t1, t2) =
     (if can_emit s t1 (gesture ev)
      then (sc\<lparr>cooldowns := (cooldowns s)(gesture ev \<mapsto> t2)\<rparr>, Some ev)
      else (sc\<lparr>cooldowns := cooldowns s\<rparr>, None))"
proof -
  have zone: "in_activation_zone (palm_center a) \<or> in_activation_zone (palm_center b)"
    using assms eval_two_hand_out_of_zone [of a b s clk0] by auto
  define s3 where "s3 = two_hand_buffers s a b"
  define delta where "delta = last (dist_buf s3) - hd (dist_buf s3)"
  define g where "g = (if 0 < delta then ''zoom_out'' else ''zoom_in'')"
  have c3: "cooldowns s3 = cooldowns s" by (simp add: s3_def)
  have eq: "eval_two_hand s a b clk =
      (if length (dist_buf s3) < 2 then (s3, None)
       else if ZOOM_DIST_RATE_MIN \<le> \<bar>delta\<bar>
       then (if \<not> can_emit s (fst clk) g then (s3\<lparr>state := STATE_ZOOM\<rparr>, None)
             else (record_emit (s3\<lparr>state := STATE_ZOOM\<rparr>) (snd clk) g,
                   Some (IntensityEvent g (py_round (min (\<bar>delta\<bar> / (3 / 10)) 1) 3))))
       else eval_two_hand_pitch s3 clk)" for clk
    unfolding eval_two_hand_in_zone [OF zone] s3_def delta_def g_def Let_def ..
  show ?thesis
  proof (cases "length (dist_buf s3) < 2")
    case True
    with assms eq [of clk0] show ?thesis by simp
  next
    case len: False
    show ?thesis
    proof (cases "ZOOM_DIST_RATE_MIN \<le> \<bar>delta\<bar>")
      case True
      with len assms eq [of clk0]
      have "sc = record_emit (s3\<lparr>state := STATE_ZOOM\<rparr>) (snd clk0) g"
        and "ev = IntensityEvent g (py_round (min (\<bar>delta\<bar> / (3 / 10)) 1) 3)"
        by (simp_all split: if_splits)
      with eq [of "(t1, t2)"] len True c3 show ?thesis
        by (simp add: record_emit_def)
    next
      case False
      with len assms eq [of clk0] have "eval_two_hand_pitch s3 clk0 = (sc, Some ev)"
        by simp
      from gate_outcome_pitch [OF this, of t1 t2] eq [of "(t1, t2)"] len False c3
      show ?thesis by (simp add: can_emit_cooldowns [of s3 s])
    qed
  qed
qed

lemma gate_outcome:
  assumes "eval_site s site clk0 = (sc, Some ev)"
  shows "eval_site s site (t1, t2) =
     (if can_emit s t1 (gesture ev)
      then (sc\<lparr>cooldowns := (cooldowns s)(gesture ev \<mapsto> t2)\<rparr>, Some ev)
      else (sc\<lparr>cooldowns := cooldowns s,
               state := (case site of SwipeSite v \<Rightarrow> state s | _ \<Rightarrow> state sc)\<rparr>, None))"
proof (cases site)
  case (TwoHandSite a b)
  with assms gate_outcome_two_hand [of s a b clk0 sc ev t1 t2] show ?thesis by simp
next
  case (SwipeSite v)
  with assms gate_outcome_swipe [of s v clk0 sc ev t1 t2] show ?thesis by simp
next
  case (BearingSite h)
  with assms gate_outcome_bearing [of s h clk0 sc ev t1 t2] show ?thesis by simp
qed

lemma eval_site_kind:
  assumes "eval_site s site clk = (s', Some ev)"
  shows "gesture ev \<in> gesture_kinds"
proof (cases site)
  case (TwoHandSite a b)
  with assms gated_two_hand [of s clk a b] show ?thesis by (simp add: gated_def)
next
  case (SwipeSite v)
  with assms gated_swipe [of s clk v] show ?thesis by (simp add: gated_def)
next
  case (BearingSite h)
  with assms gated_bearing [of s clk h] show ?thesis by (simp add: gated_def)
qed

text \<open>
  Claim C3. In a series of calls in which the clock does not run backwards between the two
  readings of one call, two events of the same kind are at least the kind's cooldown
  interval apart: 50 ms for the pitch and bearing kinds, 80 ms for the zoom and pan kinds,
  from the timestamp recorded for the earlier event to the gate reading (and to the
  recorded timestamp) of the later. The gate of a kind is open exactly when that interval
  has passed since the kind's last recorded emission. A candidate, the event that a gated
  method returns under some clock, is returned under every clock at which its gate is open,
  and the table then takes the new timestamp; at a clock at which the gate is closed the
  method returns nothing and leaves the recogniser as the emitting call does, buffers and
  counters included, but for the cooldown table, which keeps its entries, and, in
  \<^verbatim>\<open>_eval_swipe\<close>, the state field, which keeps its value.
\<close>

theorem cooldown_enforcement:
  assumes "run s0 fs = Inr (s, outs)"
    and "\<forall>f \<in> set fs. fst (snd f) \<le> snd (snd f)"
    and "i < j" and "j < length fs"
    and "outs ! i = Some ei" and "outs ! j = Some ej" and "gesture ei = gesture ej"
    and "eval_site s1 site clk0 = (sc, Some ev)"
  shows "cooldown_interval_ms (gesture ej) \<le> (fst (snd (fs ! j)) - snd (snd (fs ! i))) * 1000
       \<and> cooldown_interval_ms (gesture ej) \<le> (snd (snd (fs ! j)) - snd (snd (fs ! i))) * 1000
       \<and> can_emit s1 t1 (gesture ev)
           = (cooldown_interval_ms (gesture ev) \<le> (t1 - last_emission s1 (gesture ev)) * 1000)
       \<and> eval_site s1 site (t1, t2)
           = (if can_emit s1 t1 (gesture ev)
              then (sc\<lparr>cooldowns := (cooldowns s1)(gesture ev \<mapsto> t2)\<rparr>, Some ev)
              else (sc\<lparr>cooldowns := cooldowns s1,
                       state := (case site of SwipeSite v \<Rightarrow> state s1 | _ \<Rightarrow> state sc)\<rparr>, None))"
proof -
  from run_separation [OF assms(1-7)]
  have sep: "cooldown_interval_ms (gesture ej) \<le> (fst (snd (fs ! j)) - snd (snd (fs ! i))) * 1000" .
  from assms(2,4) have "fst (snd (fs ! j)) \<le> snd (snd (fs ! j))" by simp
  with sep have sep2: "cooldown_interval_ms (gesture ej) \<le> (snd (snd (fs ! j)) - snd (snd (fs ! i))) * 1000"
    by (simp add: algebra_simps)
  from eval_site_kind [OF assms(8)] have "gesture ev \<in> gesture_kinds" .
  from can_emit_kind [OF this] gate_outcome [OF assms(8)] sep sep2 show ?thesis
    by simp
qed

lemma zoom_run_result:
  "run init zoom_run
     = Inr (init\<lparr>state := STATE_ZOOM, dist_buf := [1 / 5, 3 / 10, 3 / 10, 3 / 10],
                 tilt_buf := [- 1, - 1, - 1, - 1], cooldowns := [''zoom_out'' \<mapsto> 21 / 10]\<rparr>,
            [None, Some zoom_out_event, None, Some zoom_out_event])"
  by (simp add: zoom_run_def zoom_out_event_def zoom_frame_1_def zoom_frame_2_def two_hand_frame_def
      update_def eval_two_hand_def
      in_activation_zone_iff upright_hand_def dist2d_def deque_append_def SMOOTHING_WINDOW_def
      hand_norm_dy_def Let_def
      ZOOM_DIST_RATE_MIN_def can_emit_def startswith_def GESTURE_COOLDOWN_MS_def record_emit_def
      py_round_def round_half_even_def init_def)

lemma zoom_site_result:
  "eval_site zoom_state zoom_site (2, 2)
     = (init\<lparr>state := STATE_ZOOM, dist_buf := [1 / 5, 3 / 10, 3 / 10],
              tilt_buf := [- 1, - 1, - 1], cooldowns := [''zoom_out'' \<mapsto> 2]\<rparr>,
        Some zoom_out_event)"
  by (simp add: zoom_state_def zoom_site_def zoom_out_event_def eval_two_hand_def
      in_activation_zone_iff upright_hand_def dist2d_def deque_append_def SMOOTHING_WINDOW_def
      hand_norm_dy_def Let_def
      ZOOM_DIST_RATE_MIN_def can_emit_def startswith_def GESTURE_COOLDOWN_MS_def record_emit_def
      py_round_def round_half_even_def init_def)

theorem cooldown_enforcement_witness:
  "run init zoom_run
     = Inr (init\<lparr>state := STATE_ZOOM, dist_buf := [1 / 5, 3 / 10, 3 / 10, 3 / 10],
                 tilt_buf := [- 1, - 1, - 1, - 1], cooldowns := [''zoom_out'' \<mapsto> 21 / 10]\<rparr>,
            [None, Some zoom_out_event, None, Some zoom_out_event])
   \<and> cooldown_interval_ms ''zoom_out'' \<le> (21 / 10 - 2) * 1000
   \<and> \<not> can_emit zoom_state (21 / 20) ''zoom_out''
   \<and> eval_site zoom_state zoom_site (21 / 20, 21 / 20)
       = (init\<lparr>state := STATE_ZOOM, dist_buf := [1 / 5, 3 / 10, 3 / 10],
               tilt_buf := [- 1, - 1, - 1], cooldowns := [''zoom_out'' \<mapsto> 1]\<rparr>, None)
   \<and> can_emit zoom_state (27 / 25) ''zoom_out''
   \<and> eval_site zoom_state zoom_site (27 / 25, 27 / 25)
       = (init\<lparr>state := STATE_ZOOM, dist_buf := [1 / 5, 3 / 10, 3 / 10],
               tilt_buf := [- 1, - 1, - 1], cooldowns := [''zoom_out'' \<mapsto> 27 / 25]\<rparr>,
          Some zoom_out_event)"
proof -
  have clk: "\<forall>f \<in> set zoom_run. fst (snd f) \<le> snd (snd f)"
    by (simp add: zoom_run_def)
  have idx: "(1 :: nat) < 3" "3 < length zoom_run"
    "[None, Some zoom_out_event, None, Some zoom_out_event] ! 1 = Some zoom_out_event"
    "[None, Some zoom_out_event, None, Some zoom_out_event] ! 3 = Some zoom_out_event"
    "gesture zoom_out_event = gesture zoom_out_event"
    by (simp_all add: zoom_run_def)
  have closed: "\<not> can_emit zoom_state (21 / 20) ''zoom_out''"
    and opened: "can_emit zoom_state (27 / 25) ''zoom_out''"
    by (simp_all add: zoom_state_def init_def can_emit_def startswith_def GESTURE_COOLDOWN_MS_def)
  have g: "gesture zoom_out_event = ''zoom_out''" by (simp add: zoom_out_event_def)
  note ce = cooldown_enforcement [OF zoom_run_result clk idx zoom_site_result]
  have sep: "cooldown_interval_ms ''zoom_out'' \<le> (21 / 10 - 2) * 1000"
    using ce [of 0 0] by (simp add: g zoom_run_def)
  have a: "eval_site zoom_state zoom_site (21 / 20, 21 / 20)
       = (init\<lparr>state := STATE_ZOOM, dist_buf := [1 / 5, 3 / 10, 3 / 10],
               tilt_buf := [- 1, - 1, - 1], cooldowns := [''zoom_out'' \<mapsto> 1]\<rparr>, None)"
    using ce [of "21 / 20" "21 / 20"] closed
    by (simp add: g zoom_site_def zoom_state_def init_def)
  have b: "eval_site zoom_state zoom_site (27 / 25, 27 / 25)
       = (init\<lparr>state := STATE_ZOOM, dist_buf := [1 / 5, 3 / 10, 3 / 10],
               tilt_buf := [- 1, - 1, - 1], cooldowns := [''zoom_out'' \<mapsto> 27 / 25]\<rparr>,
          Some zoom_out_event)"
    using ce [of "27 / 25" "27 / 25"] opened
    by (simp add: g zoom_site_def zoom_state_def init_def)
  from zoom_run_result sep closed a opened b show ?thesis by simp
qed

text \<open>
  Claim C10. A gesture kind that no call of a series starting from the fresh recogniser has
  returned has no entry in the cooldown table; the gate reads 0.0 for it, so it is open
  exactly from the kind's cooldown interval after the epoch on, and at such a clock reading
  a candidate of that kind is returned and its timestamp recorded.
\<close>

theorem first_emission_passes_gate:
  assumes "run init fs = Inr (s, outs)"
    and "\<forall>e. Some e \<in> set outs \<longrightarrow> gesture e \<noteq> gesture ev"
    and "eval_site s site clk0 = (sc, Some ev)"
    and "cooldown_interval_ms (gesture ev) \<le> now * 1000"
  shows "cooldowns s (gesture ev) = None
       \<and> last_emission s (gesture ev) = 0
       \<and> can_emit s t (gesture ev) = (cooldown_interval_ms (gesture ev) \<le> (t - 0) * 1000)
       \<and> can_emit s now (gesture ev)
       \<and> eval_site s site (now, t2) = (sc\<lparr>cooldowns := (cooldowns s)(gesture ev \<mapsto> t2)\<rparr>, Some ev)"
proof -
  from run_never_emitted [OF assms(1,2)] have none: "cooldowns s (gesture ev) = None"
    by (simp add: init_def)
  then have last0: "last_emission s (gesture ev) = 0" by (simp add: last_emission_def)
  from eval_site_kind [OF assms(3)] have k: "gesture ev \<in> gesture_kinds" .
  from can_emit_kind [OF k, of s] last0
  have gate: "can_emit s t' (gesture ev) = (cooldown_interval_ms (gesture ev) \<le> (t' - 0) * 1000)" for t'
    by simp
  with assms(4) have "can_emit s now (gesture ev)" by simp
  with gate_outcome [OF assms(3), of now t2] none last0 gate [of t] show ?thesis by simp
qed

theorem first_emission_passes_gate_witness:
  "run init [(zoom_frame_1, (1 / 100, 1 / 100))]
     = Inr (init\<lparr>dist_buf := [1 / 5], tilt_buf := [- 1]\<rparr>, [None])
   \<and> cooldowns (init\<lparr>dist_buf := [1 / 5], tilt_buf := [- 1]\<rparr>) ''zoom_out'' = None
   \<and> cooldown_interval_ms ''zoom_out'' \<le> (8 / 100) * 1000
   \<and> can_emit (init\<lparr>dist_buf := [1 / 5], tilt_buf := [- 1]\<rparr>) (8 / 100) ''zoom_out''
   \<and> eval_site (init\<lparr>dist_buf := [1 / 5], tilt_buf := [- 1]\<rparr>) zoom_site (8 / 100, 9 / 100)
       = (init\<lparr>state := STATE_ZOOM, dist_buf := [1 / 5, 3 / 10], tilt_buf := [- 1, - 1],
               cooldowns := [''zoom_out'' \<mapsto> 9 / 100]\<rparr>, Some zoom_out_event)"
proof -
  have r: "run init [(zoom_frame_1, (1 / 100, 1 / 100))]
     = Inr (init\<lparr>dist_buf := [1 / 5], tilt_buf := [- 1]\<rparr>, [None])"
    by (simp add: zoom_frame_1_def two_hand_frame_def update_def eval_two_hand_def
      in_activation_zone_iff upright_hand_def dist2d_def deque_append_def SMOOTHING_WINDOW_def
      hand_norm_dy_def Let_def init_def)
  have never: "\<forall>e. Some e \<in> set [None] \<longrightarrow> gesture e \<noteq> gesture zoom_out_event"
    by simp
  have site: "eval_site (init\<lparr>dist_buf := [1 / 5], tilt_buf := [- 1]\<rparr>) zoom_site (2, 2)
     = (init\<lparr>state := STATE_ZOOM, dist_buf := [1 / 5, 3 / 10], tilt_buf := [- 1, - 1],
               cooldowns := [''zoom_out'' \<mapsto> 2]\<rparr>, Some zoom_out_event)"
    by (simp add: zoom_site_def zoom_out_event_def eval_two_hand_def
      in_activation_zone_iff upright_hand_def dist2d_def deque_append_def SMOOTHING_WINDOW_def
      hand_norm_dy_def Let_def
      ZOOM_DIST_RATE_MIN_def can_emit_def startswith_def GESTURE_COOLDOWN_MS_def record_emit_def
      py_round_def round_half_even_def init_def)
  have g: "gesture zoom_out_event = ''zoom_out''" by (simp add: zoom_out_event_def)
  have iv: "cooldown_interval_ms (gesture zoom_out_event) \<le> (8 / 100) * 1000"
    by (simp add: g cooldown_interval_ms_def)
  from first_emission_passes_gate [OF r never site iv, of 0 "9 / 100"] r iv
  show ?thesis by (simp add: g init_def)
qed

section \<open>Magnitudes\<close>

lemma round_half_even_bounds:
  assumes "0 \<le> y" and "y \<le> 1000"
  shows "0 \<le> round_half_even y \<and> round_half_even y \<le> 1000"
proof -
  have f0: "0 \<le> \<lfloor>y\<rfloor>" using assms(1) by simp
  have f1: "\<lfloor>y\<rfloor> \<le> 1000" using assms(2) by (simp add: floor_le_iff)
  have up: "\<lfloor>y\<rfloor> + 1 \<le> 1000" if "1 / 2 \<le> y - of_int \<lfloor>y\<rfloor>"
  proof -
    from that assms(2) have "of_int \<lfloor>y\<rfloor> < (1000 :: real)" by linarith
    then have "\<lfloor>y\<rfloor> < 1000" by linarith
    then show ?thesis by simp
  qed
  show ?thesis
    unfolding round_half_even_def Let_def
    using f0 f1 up by (auto simp: not_less)
qed

lemma py_round_unit:
  assumes "0 \<le> x" and "x \<le> 1"
  shows "0 \<le> py_round x 3 \<and> py_round x 3 \<le> 1"
proof -
  from assms have "0 \<le> x * 1000" and "x * 1000 \<le> 1000" by simp_all
  from round_half_even_bounds [OF this]
  have "0 \<le> round_half_even (x * 1000)" and "round_half_even (x * 1000) \<le> 1000" by simp_all
  then have "(0 :: real) \<le> of_int (round_half_even (x * 1000))"
    and "(of_int (round_half_even (x * 1000)) :: real) \<le> 1000"
    by simp_all
  then show ?thesis by (simp add: py_round_def)
qed

lemma py_round_min_unit: "0 \<le> x \<Longrightarrow> 0 \<le> py_round (min x 1) 3 \<and> py_round (min x 1) 3 \<le> 1"
  by (rule py_round_unit) simp_all

lemma set_deque_append: "set (deque_append buf x) \<subseteq> insert x (set buf)"
  using set_drop_subset [of "length (buf @ [x]) - SMOOTHING_WINDOW" "buf @ [x]"]
  by (auto simp: deque_append_def Let_def)

lemma unit_result_None [simp]: "unit_result None"
  by (simp add: unit_result_def)

lemma unit_intensity [simp]:
  "0 \<le> x \<Longrightarrow> unit_result (Some (IntensityEvent g (py_round (min x 1) 3)))"
  using py_round_min_unit [of x] by (simp add: unit_result_def)

lemma unit_velocity [simp]:
  "0 \<le> x \<Longrightarrow> x \<le> 1 \<Longrightarrow> unit_result (Some (VelocityEvent g (py_round x 3)))"
  using py_round_unit [of x] by (simp add: unit_result_def)

lemma unit_pitch':
  "unit_result (snd (eval_two_hand_pitch s clk))
     \<and> palm_buf (fst (eval_two_hand_pitch s clk)) = palm_buf s"
  by (simp add: eval_two_hand_pitch_def Let_def record_emit_def)

lemma unit_pitch:
  assumes "eval_two_hand_pitch s clk = (s', r)"
  shows "unit_result r \<and> palm_buf s' = palm_buf s"
  using unit_pitch' [of s clk] assms by simp

lemma unit_two_hand:
  assumes "eval_two_hand s a b clk = (s', r)"
  shows "unit_result r \<and> palm_buf s' = []"
proof (cases "in_activation_zone (palm_center a) \<or> in_activation_zone (palm_center b)")
  case False
  with assms eval_two_hand_out_of_zone [OF False, of s clk] show ?thesis
    by auto
next
  case True
  define s3 where "s3 = two_hand_buffers s a b"
  define delta where "delta = last (dist_buf s3) - hd (dist_buf s3)"
  have p3: "palm_buf s3 = []" by (simp add: s3_def)
  note eq = eval_two_hand_in_zone [OF True, of s clk, unfolded Let_def,
      folded s3_def, folded delta_def]
  show ?thesis
  proof (cases "length (dist_buf s3) < 2")
    case True
    with assms eq p3 show ?thesis by simp
  next
    case len: False
    show ?thesis
    proof (cases "ZOOM_DIST_RATE_MIN \<le> \<bar>delta\<bar>")
      case True
      with len eq p3 have "unit_result (snd (eval_two_hand s a b clk))
          \<and> palm_buf (fst (eval_two_hand s a b clk)) = []"
        by (simp add: record_emit_def)
      with assms show ?thesis by simp
    next
      case False
      with len assms eq have "eval_two_hand_pitch s3 clk = (s', r)" by simp
      from unit_pitch [OF this] p3 show ?thesis by simp
    qed
  qed
qed

lemma unit_swipe':
  "\<bar>v\<bar> \<le> 1 \<Longrightarrow>
     unit_result (snd (eval_swipe s v clk)) \<and> palm_buf (fst (eval_swipe s v clk)) = palm_buf s"
  by (simp add: eval_swipe_def Let_def record_emit_def SWIPE_VELOCITY_THRESHOLD_def)

lemma unit_swipe:
  assumes "eval_swipe s v clk = (s', r)" and "\<bar>v\<bar> \<le> 1"
  shows "unit_result r \<and> palm_buf s' = palm_buf s"
  using unit_swipe' [OF assms(2), of s clk] assms(1) by simp

lemma unit_bearing':
  "unit_result (snd (eval_bearing s h clk)) \<and> palm_buf (fst (eval_bearing s h clk)) = palm_buf s"
  by (simp add: eval_bearing_def Let_def record_emit_def)

lemma unit_bearing:
  assumes "eval_bearing s h clk = (s', r)"
  shows "unit_result r \<and> palm_buf s' = palm_buf s"
  using unit_bearing' [of s h clk] assms by simp

lemma unit_single_hand:
  assumes "eval_single_hand s h clk = (s', r)" and "palm_inv s"
  shows "unit_result r \<and> palm_inv s'"
proof (cases "in_activation_zone (palm_center h)")
  case False
  with assms show ?thesis
    by (auto simp: eval_single_hand_def reset_buffers_def palm_inv_def)
next
  case True
  define s2 where "s2 = s\<lparr>dist_buf := [], tilt_buf := [], palm_buf := deque_append (palm_buf s) (palm_center h)\<rparr>"
  define v where "v = fst (last (palm_buf s2)) - fst (hd (palm_buf s2))"
  have inv2: "palm_inv s2"
    using assms(2) True set_deque_append [of "palm_buf s" "palm_center h"]
    by (auto simp: palm_inv_def s2_def)
  have eq: "eval_single_hand s h clk =
      (if length (palm_buf s2) < 2 then (s2, None)
       else (case eval_swipe s2 v clk of
                    (s3, Some swipe_result) \<Rightarrow> (s3\<lparr>angle_buf := []\<rparr>, Some swipe_result)
                  | (s3, None) \<Rightarrow> eval_bearing s3 h clk))"
    using True by (simp add: eval_single_hand_def s2_def v_def Let_def)
  show ?thesis
  proof (cases "length (palm_buf s2) < 2")
    case True
    with eq assms(1) inv2 show ?thesis by auto
  next
    case False
    then have ne: "palm_buf s2 \<noteq> []" by auto
    then have "last (palm_buf s2) \<in> set (palm_buf s2)" and "hd (palm_buf s2) \<in> set (palm_buf s2)"
      by simp_all
    with inv2 have "in_activation_zone (last (palm_buf s2))" and "in_activation_zone (hd (palm_buf s2))"
      by (simp_all add: palm_inv_def)
    then have v1: "\<bar>v\<bar> \<le> 1"
      unfolding v_def
      by (cases "last (palm_buf s2)"; cases "hd (palm_buf s2)")
        (auto simp: in_activation_zone_iff abs_le_iff)
    obtain s3 r3 where sw: "eval_swipe s2 v clk = (s3, r3)" by force
    from unit_swipe [OF sw v1] have u3: "unit_result r3" and p3: "palm_buf s3 = palm_buf s2"
      by simp_all
    show ?thesis
    proof (cases r3)
      case None
      with eq False sw assms(1) have "eval_bearing s3 h clk = (s', r)" by simp
      from unit_bearing [OF this] p3 inv2 show ?thesis by (simp add: palm_inv_def)
    next
      case (Some ev)
      with eq False sw assms(1) have "s' = s3\<lparr>angle_buf := []\<rparr>" and "r = r3" by simp_all
      with u3 p3 inv2 show ?thesis by (simp add: palm_inv_def)
    qed
  qed
qed

lemma unit_update:
  assumes "update s obs clk = Inr (s', r)" and "palm_inv s"
  shows "unit_result r \<and> palm_inv s'"
proof -
  have idle: "unit_result None \<and> palm_inv ((reset_buffers s)\<lparr>state := STATE_IDLE\<rparr>)"
    by (simp add: palm_inv_def reset_buffers_def)
  from assms idle show ?thesis
    by (auto simp: update_def palm_inv_def
        dest: unit_two_hand unit_single_hand [unfolded palm_inv_def]
        split: if_splits list.splits)
qed

lemma unit_run:
  assumes "run s0 fs = Inr (s, outs)" and "palm_inv s0"
  shows "(\<forall>r \<in> set outs. unit_result r) \<and> palm_inv s"
  using assms
proof (induction fs arbitrary: s0 outs)
  case Nil
  then show ?case by simp
next
  case (Cons f fs)
  from Cons.prems(1) obtain s1 r rs where
    u: "update s0 (fst f) (snd f) = Inr (s1, r)" and rn: "run s1 fs = Inr (s, rs)"
    and outs: "outs = r # rs"
    by (rule run_Cons_elim)
  from unit_update [OF u Cons.prems(2)] have "unit_result r" and "palm_inv s1" by simp_all
  with Cons.IH [OF rn] outs show ?case by simp
qed

subsection \<open>A swipe to the left\<close>

lemma atan2_up [simp]: "atan2 (- (1 / 10)) 0 = - (pi / 2)"
  by (simp add: atan2_def)

lemma atan2_right [simp]: "atan2 0 (1 / 10) = 0"
  by (simp add: atan2_def)

lemma pan_run_result:
  "run init pan_run = Inr (pan_state, [None, None, None, Some (VelocityEvent ''pan_left'' (3 / 10))])"
  by (simp add: pan_run_def pan_state_def one_hand_frame_def
      update_def eval_single_hand_def eval_swipe_def eval_bearing_def
      in_activation_zone_iff upright_hand_def deque_append_def SMOOTHING_WINDOW_def
      Let_def unwrap_def BEARING_ANGLE_RATE_MIN_def
      SWIPE_VELOCITY_THRESHOLD_def SWIPE_MIN_FRAMES_def
      can_emit_def startswith_def GESTURE_COOLDOWN_MS_def record_emit_def
      py_round_def round_half_even_def init_def)

text \<open>
  Claim C8. Every event returned in a series of calls starting from the fresh recogniser has
  its magnitude, the intensity of a zoom, pitch or bearing event and the velocity of a pan
  event, in \<open>[0, 1]\<close>. The intensities are capped at 1 before rounding; the velocity is
  the distance in x of two buffered palm centres, which both passed the zone test. No bound
  on the coordinates of the observation is needed.
\<close>

theorem emitted_magnitude_in_unit_interval:
  assumes "run init fs = Inr (s, outs)" and "Some ev \<in> set outs"
  shows "0 \<le> magnitude ev \<and> magnitude ev \<le> 1"
proof -
  have "palm_inv init" by (simp add: palm_inv_def init_def)
  from unit_run [OF assms(1) this] assms(2) have "unit_result (Some ev)" by blast
  then show ?thesis by (simp add: unit_result_def)
qed

theorem emitted_magnitude_in_unit_interval_witness:
  "run init pan_run = Inr (pan_state, [None, None, None, Some (VelocityEvent ''pan_left'' (3 / 10))])
   \<and> Some (VelocityEvent ''pan_left'' (3 / 10))
        \<in> set [None, None, None, Some (VelocityEvent ''pan_left'' (3 / 10))]
   \<and> 0 \<le> magnitude (VelocityEvent ''pan_left'' (3 / 10))
   \<and> magnitude (VelocityEvent ''pan_left'' (3 / 10)) \<le> 1"
proof -
  have "Some (VelocityEvent ''pan_left'' (3 / 10))
        \<in> set [None, None, None, Some (VelocityEvent ''pan_left'' (3 / 10))]"
    by simp
  from emitted_magnitude_in_unit_interval [OF pan_run_result this] pan_run_result this
  show ?thesis by simp
qed

section \<open>A confirmed swipe under a closed gate\<close>

lemma run_append:
  "run s (fs @ gs) =
     (case run s fs of
        Inl e \<Rightarrow> Inl e
      | Inr (s1, rs) \<Rightarrow>
          (case run s1 gs of Inl e \<Rightarrow> Inl e | Inr (s2, rs2) \<Rightarrow> Inr (s2, rs @ rs2)))"
  by (induction fs arbitrary: s) (auto split: sum.splits prod.splits)

lemma suppressed_pan_step:
  "update pan_state (one_hand_frame (upright_hand (3 / 10) (1 / 2))) (112 / 100, 112 / 100)
     = Inr (suppressed_pan_state, None)"
  by (simp add: suppressed_pan_state_def pan_state_def one_hand_frame_def
      update_def eval_single_hand_def eval_swipe_def eval_bearing_def
      in_activation_zone_iff upright_hand_def deque_append_def SMOOTHING_WINDOW_def
      Let_def SWIPE_VELOCITY_THRESHOLD_def SWIPE_MIN_FRAMES_def
      can_emit_def startswith_def GESTURE_COOLDOWN_MS_def init_def)

lemma bearing_during_pan_step:
  "update suppressed_pan_state (one_hand_frame (level_hand (1 / 4) (1 / 2))) (115 / 100, 115 / 100)
       = Inr (suppressed_pan_state
                \<lparr>state := STATE_BEARING_CW,
                  palm_buf := [(6 / 10, 1 / 2), (5 / 10, 1 / 2), (4 / 10, 1 / 2),
                               (3 / 10, 1 / 2), (1 / 4, 1 / 2)],
                  swipe_frames_left := 5, angle_buf := [- (pi / 2), 0],
                  cooldowns := [''pan_left'' \<mapsto> 109 / 100, ''bearing_cw'' \<mapsto> 115 / 100]\<rparr>,
              Some (IntensityEvent ''bearing_cw'' 1))"
  using pi_ge_two
  by (simp add: suppressed_pan_state_def pan_state_def one_hand_frame_def
      update_def eval_single_hand_def eval_swipe_def eval_bearing_def
      in_activation_zone_iff level_hand_def deque_append_def SMOOTHING_WINDOW_def
      Let_def unwrap_def BEARING_ANGLE_RATE_MIN_def BEARING_COOLDOWN_MS_def
      SWIPE_VELOCITY_THRESHOLD_def SWIPE_MIN_FRAMES_def
      can_emit_def startswith_def GESTURE_COOLDOWN_MS_def record_emit_def
      py_round_def round_half_even_def init_def)

lemma suppressed_pan_run:
  "run init (pan_run @ [(one_hand_frame (upright_hand (3 / 10) (1 / 2)), (112 / 100, 112 / 100))])
     = Inr (suppressed_pan_state,
            [None, None, None, Some (VelocityEvent ''pan_left'' (3 / 10)), None])"
  by (simp only: run_append pan_run_result run.simps fst_conv snd_conv suppressed_pan_step
      sum.case prod.case append.simps)

lemma bearing_during_pan_run:
  "run init (pan_run @ [(one_hand_frame (upright_hand (3 / 10) (1 / 2)), (112 / 100, 112 / 100)),
                        (one_hand_frame (level_hand (1 / 4) (1 / 2)), (115 / 100, 115 / 100))])
     = Inr (suppressed_pan_state
                \<lparr>state := STATE_BEARING_CW,
                  palm_buf := [(6 / 10, 1 / 2), (5 / 10, 1 / 2), (4 / 10, 1 / 2),
                               (3 / 10, 1 / 2), (1 / 4, 1 / 2)],
                  swipe_frames_left := 5, angle_buf := [- (pi / 2), 0],
                  cooldowns := [''pan_left'' \<mapsto> 109 / 100, ''bearing_cw'' \<mapsto> 115 / 100]\<rparr>,
            [None, None, None, Some (VelocityEvent ''pan_left'' (3 / 10)), None,
             Some (IntensityEvent ''bearing_cw'' 1)])"
  by (simp only: run_append pan_run_result run.simps fst_conv snd_conv suppressed_pan_step
      bearing_during_pan_step sum.case prod.case append.simps)

text \<open>
  Claim C2, on the code. The fourth frame of \<open>pan_run\<close> confirms the swipe and emits
  \<^verbatim>\<open>pan_left\<close>, which clears the angle buffer. On the fifth frame, 30 ms later, the swipe
  is confirmed again (counter 4) and the gate of \<^verbatim>\<open>pan_left\<close> is closed:
  \<^verbatim>\<open>_eval_swipe\<close> returns nothing, \<^verbatim>\<open>_eval_single_hand\<close> takes that for no swipe and
  calls \<^verbatim>\<open>_eval_bearing\<close>, which appends the hand's angle. The angle buffer is not
  cleared and bearing detection is evaluated.
\<close>

theorem suppressed_swipe_runs_bearing:
  "run init (pan_run @ [(one_hand_frame (upright_hand (3 / 10) (1 / 2)), (112 / 100, 112 / 100))])
     = Inr (suppressed_pan_state,
            [None, None, None, Some (VelocityEvent ''pan_left'' (3 / 10)), None])
   \<and> SWIPE_MIN_FRAMES \<le> swipe_frames_left suppressed_pan_state
   \<and> \<not> can_emit pan_state (112 / 100) ''pan_left''
   \<and> angle_buf pan_state = []
   \<and> angle_buf suppressed_pan_state = [- (pi / 2)]"
proof -
  have "SWIPE_MIN_FRAMES \<le> swipe_frames_left suppressed_pan_state"
    and "\<not> can_emit pan_state (112 / 100) ''pan_left''"
    and "angle_buf pan_state = []"
    and "angle_buf suppressed_pan_state = [- (pi / 2)]"
    by (simp_all add: suppressed_pan_state_def pan_state_def init_def SWIPE_MIN_FRAMES_def
        can_emit_def startswith_def GESTURE_COOLDOWN_MS_def)
  with suppressed_pan_run show ?thesis by (simp only: simp_thms)
qed

text \<open>
  Claim C1, on the code. On the sixth frame, 60 ms after the emission, the hand has turned;
  the swipe is confirmed again (counter 5), the gate of \<^verbatim>\<open>pan_left\<close> is still closed, and
  \<^verbatim>\<open>_eval_swipe\<close> returns before it writes the state. The call goes on to
  \<^verbatim>\<open>_eval_bearing\<close> and returns a \<^verbatim>\<open>bearing_cw\<close> event, with the state BearingCw: it
  neither returns nothing nor sets the state of the suppressed swipe. For the zoom, pitch
  and bearing gates the state is written ahead of the gate: there the suppressed call leaves
  the state that the emitting call leaves.
\<close>

theorem suppressed_swipe_state_not_written:
  "run init (pan_run @ [(one_hand_frame (upright_hand (3 / 10) (1 / 2)), (112 / 100, 112 / 100)),
                        (one_hand_frame (level_hand (1 / 4) (1 / 2)), (115 / 100, 115 / 100))])
     = Inr (suppressed_pan_state
                \<lparr>state := STATE_BEARING_CW,
                  palm_buf := [(6 / 10, 1 / 2), (5 / 10, 1 / 2), (4 / 10, 1 / 2),
                               (3 / 10, 1 / 2), (1 / 4, 1 / 2)],
                  swipe_frames_left := 5, angle_buf := [- (pi / 2), 0],
                  cooldowns := [''pan_left'' \<mapsto> 109 / 100, ''bearing_cw'' \<mapsto> 115 / 100]\<rparr>,
            [None, None, None, Some (VelocityEvent ''pan_left'' (3 / 10)), None,
             Some (IntensityEvent ''bearing_cw'' 1)])
   \<and> SWIPE_MIN_FRAMES \<le> (5 :: nat)
   \<and> \<not> can_emit suppressed_pan_state (115 / 100) ''pan_left''
   \<and> STATE_BEARING_CW \<noteq> STATE_SWIPE_LEFT"
proof -
  have "SWIPE_MIN_FRAMES \<le> (5 :: nat)"
    and "\<not> can_emit suppressed_pan_state (115 / 100) ''pan_left''"
    and "STATE_BEARING_CW \<noteq> STATE_SWIPE_LEFT"
    by (simp_all add: suppressed_pan_state_def pan_state_def init_def SWIPE_MIN_FRAMES_def
        can_emit_def startswith_def GESTURE_COOLDOWN_MS_def)
  with bearing_during_pan_run show ?thesis by (simp only: simp_thms)
qed

end
